theory Spec2Isabelle
  imports Main "HOL-Library.Sublist"
begin

section \<open>Strings\<close>

text \<open>
  Python strings are modelled as \<^typ>\<open>string\<close>; a character stands for a code point
  below 256. Encoding to and decoding from UTF-8 is the identity in this model.
\<close>

definition newline :: char where
  "newline = CHR 0x0A"

definition squote :: char where
  "squote = CHR 0x27"

definition dquote :: char where
  "dquote = CHR 0x22"

text \<open>\<^verbatim>\<open>str.isspace\<close> on one character, which is also what \<^verbatim>\<open>\s\<close> matches.\<close>

definition isspace :: "char \<Rightarrow> bool" where
  "isspace c = (c \<in> set [CHR 0x09, CHR 0x0A, CHR 0x0B, CHR 0x0C, CHR 0x0D,
                           CHR 0x1C, CHR 0x1D, CHR 0x1E, CHR 0x1F, CHR 0x20,
                           CHR 0x85, CHR 0xA0])"

text \<open>\<^verbatim>\<open>s.startswith(p)\<close>\<close>

definition startswith :: "string \<Rightarrow> string \<Rightarrow> bool" where
  "startswith s p = (take (length p) s = p)"

text \<open>\<^verbatim>\<open>sub in s\<close>\<close>

fun contains :: "string \<Rightarrow> string \<Rightarrow> bool" where
  "contains sub [] = (sub = [])"
| "contains sub (c # cs) = (startswith (c # cs) sub \<or> contains sub cs)"

text \<open>\<^verbatim>\<open>s.find(sub)\<close>, \<open>None\<close> for \<^verbatim>\<open>-1\<close>.\<close>

fun find_sub :: "string \<Rightarrow> string \<Rightarrow> nat option" where
  "find_sub sub [] = (if sub = [] then Some 0 else None)"
| "find_sub sub (c # cs) =
     (if startswith (c # cs) sub then Some 0 else map_option Suc (find_sub sub cs))"

text \<open>\<^verbatim>\<open>if x not in xs: xs.append(x)\<close>\<close>

definition append_new :: "'a list \<Rightarrow> 'a \<Rightarrow> 'a list" where
  "append_new xs x = (if x \<in> set xs then xs else xs @ [x])"

text \<open>\<^verbatim>\<open>s.split('\n')\<close>: always at least one piece.\<close>

fun split_nl :: "string \<Rightarrow> string list" where
  "split_nl [] = [[]]"
| "split_nl (c # cs) =
     (if c = newline then [] # split_nl cs
      else (case split_nl cs of [] \<Rightarrow> [[c]] | l # ls \<Rightarrow> (c # l) # ls))"

text \<open>\<^verbatim>\<open>sep.join(xs)\<close>\<close>

fun str_join :: "string \<Rightarrow> string list \<Rightarrow> string" where
  "str_join sep [] = []"
| "str_join sep [x] = x"
| "str_join sep (x # y # ys) = x @ sep @ str_join sep (y # ys)"

section \<open>Regular expressions\<close>

text \<open>
  The patterns of the source are transcribed into a small regular-expression type and
  run by a backtracking matcher. \<open>rx_run r s\<close> lists the remainders of \<open>s\<close> after
  each way \<open>r\<close> matches a prefix of \<open>s\<close>, in the order a backtracking engine explores
  them: the first alternative before the second, a greedy star the longest way first,
  a lazy star the shortest way first. The head of the list is the match Python reports.
\<close>

datatype rx =
    Chr char
  | Cls "char \<Rightarrow> bool"
  | Eps
  | Eol
  | Seq rx rx
  | Alt rx rx
  | Star rx
  | StarLazy rx

fun rx_run :: "rx \<Rightarrow> string \<Rightarrow> string list" where
  "rx_run (Chr c) s = (case s of [] \<Rightarrow> [] | x # xs \<Rightarrow> if x = c then [xs] else [])"
| "rx_run (Cls p) s = (case s of [] \<Rightarrow> [] | x # xs \<Rightarrow> if p x then [xs] else [])"
| "rx_run Eps s = [s]"
| "rx_run Eol s = (if s = [] \<or> s = [newline] then [s] else [])"
| "rx_run (Seq a b) s = concat (map (rx_run b) (rx_run a s))"
| "rx_run (Alt a b) s = rx_run a s @ rx_run b s"
| "rx_run (Star a) s =
     concat (map (rx_run (Star a)) (filter (\<lambda>r. length r < length s) (rx_run a s))) @ [s]"
| "rx_run (StarLazy a) s =
     s # concat (map (rx_run (StarLazy a)) (filter (\<lambda>r. length r < length s) (rx_run a s)))"

text \<open>A literal string, \<^verbatim>\<open>a+\<close>, and an alternation of several patterns.\<close>

definition Lit :: "string \<Rightarrow> rx" where
  "Lit s = foldr (\<lambda>c r. Seq (Chr c) r) s Eps"

definition Plus :: "rx \<Rightarrow> rx" where
  "Plus a = Seq a (Star a)"

fun Alts :: "rx list \<Rightarrow> rx" where
  "Alts [] = Cls (\<lambda>c. False)"
| "Alts [r] = r"
| "Alts (r # rs) = Alt r (Alts rs)"

text \<open>\<^verbatim>\<open>re.match(r, s) is not None\<close>: the pattern matches at the start of \<open>s\<close>.\<close>

definition rx_match :: "rx \<Rightarrow> string \<Rightarrow> bool" where
  "rx_match r s = (rx_run r s \<noteq> [])"

text \<open>\<^verbatim>\<open>re.search(r, s) is not None\<close>: the pattern matches at some position of \<open>s\<close>.\<close>

fun rx_search :: "rx \<Rightarrow> string \<Rightarrow> bool" where
  "rx_search r [] = rx_match r []"
| "rx_search r (c # cs) = (rx_match r (c # cs) \<or> rx_search r cs)"

text \<open>
  A match of \<^verbatim>\<open>prefix(group)suffix\<close> at the start of \<open>s\<close>: the text of the group and
  the remainder after the whole match.
\<close>

definition rx_group :: "rx \<Rightarrow> rx \<Rightarrow> rx \<Rightarrow> string \<Rightarrow> (string \<times> string) option" where
  "rx_group pre g post s =
     (case concat (map (\<lambda>r1. concat (map (\<lambda>r2. map (\<lambda>r3. (take (length r1 - length r2) r1, r3))
                                                   (rx_run post r2))
                                       (rx_run g r1)))
                       (rx_run pre s)) of
        [] \<Rightarrow> None
      | m # _ \<Rightarrow> Some m)"

text \<open>
  \<^verbatim>\<open>[m.group(1) for m in re.finditer(prefix(group)suffix, s)]\<close>: matches are looked for
  from left to right and do not overlap. None of the patterns used matches the empty
  string; the scan advances by one character where a match would not consume any.
\<close>

function finditer1 :: "rx \<Rightarrow> rx \<Rightarrow> rx \<Rightarrow> string \<Rightarrow> string list" where
  "finditer1 pre g post s =
     (if s = [] then []
      else (case rx_group pre g post s of
              None \<Rightarrow> finditer1 pre g post (tl s)
            | Some (grp, rest) \<Rightarrow>
                if length rest < length s then grp # finditer1 pre g post rest
                else finditer1 pre g post (tl s)))"
  by pat_completeness auto
termination
  by (relation "measure (\<lambda>(pre, g, post, s). length s)") auto

declare finditer1.simps [simp del]

section \<open>The source object and its surroundings\<close>

text \<open>The exceptions that leave the operations modelled here.\<close>

datatype error = OSError | ValueError | TypeError | IndexError | AttributeError

text \<open>
  The file system as the plugin observes it. \<open>listdir\<close> and \<open>read_text\<close> are \<open>None\<close>
  where Python raises \<^verbatim>\<open>OSError\<close>. Modification times are compared only, and are
  integers here; the source asks for them only where the file is known to exist.
  \<open>walk\<close> gives the tree of directories and files that \<^verbatim>\<open>os.walk\<close> goes through from
  a path, and \<open>glob\<close> the paths that match a pattern.
\<close>

datatype dirtree = DirTree (subdirs: "(string \<times> dirtree) list") (files: "string list")

record fs =
  isfile :: "string \<Rightarrow> bool"
  isdir :: "string \<Rightarrow> bool"
  path_exists :: "string \<Rightarrow> bool"
  listdir :: "string \<Rightarrow> string list option"
  read_text :: "string \<Rightarrow> string option"
  getmtime :: "string \<Rightarrow> int"
  glob :: "string \<Rightarrow> string list"
  walk :: "string \<Rightarrow> dirtree"

text \<open>
  Starting a process is an oracle: from the file system, the argument list given to
  \<^verbatim>\<open>subprocess.Popen\<close> and the text on the standard input, it gives the standard
  output and the standard error of the process and the file system it leaves behind, or
  \<open>None\<close> where \<^verbatim>\<open>Popen\<close> raises \<^verbatim>\<open>OSError\<close> because the program that the first
  argument names cannot be started.
\<close>

type_synonym popen = "fs \<Rightarrow> string list \<Rightarrow> string \<Rightarrow> (string \<times> string \<times> fs) option"

record completion =
  word :: string
  abbr :: string
  kind :: string
  info :: string
  icase :: nat
  dup :: nat

record last_request =
  last_input :: string
  last_line :: nat
  last_col :: int
  last_completions :: "completion list"

record db_index =
  db_file :: string
  db_entries :: "string \<rightharpoonup> string list"

text \<open>
  The fields of \<^verbatim>\<open>Source\<close> that the operations read and write, with the file
  system and two logs of the processes started so far, in order: \<open>spawned\<close> has the
  argument list of each, \<open>outputs\<close> its standard output and standard error.
  \<open>last_ctx\<close> is the dictionary \<^verbatim>\<open>self.last\<close>, \<open>None\<close> when it is empty;
  \<open>darwin_version = None\<close> stands for both \<^verbatim>\<open>0\<close> and \<^verbatim>\<open>None\<close>, which the source only
  tests for truth.
\<close>

record source =
  bad_flags :: "string list"
  clang_flags :: "string \<rightharpoonup> string list"
  db_files :: "string \<rightharpoonup> db_index"
  last_ctx :: "last_request option"
  scope_completions :: "completion list"
  user_flags :: "string \<rightharpoonup> string option"
  darwin_version :: "(string \<times> nat) option"
  spawned :: "string list list"
  outputs :: "(string \<times> string) list"
  fsys :: fs

section \<open>call_clang\<close>

text \<open>The pattern \<^verbatim>\<open>unknown argument: '([^']+)'\<close> and its matches in the error stream.\<close>

definition unknown_key :: string where
  "unknown_key = ''unknown argument: '' @ [squote]"

definition unknown_args :: "string \<Rightarrow> string list" where
  "unknown_args stderr =
     finditer1 (Lit unknown_key) (Plus (Cls (\<lambda>c. c \<noteq> squote))) (Chr squote) stderr"

text \<open>
  The \<^verbatim>\<open>for bad in re.finditer(...)\<close> loop: each argument is remembered in
  \<open>bad_flags\<close>; the loop is left at the first argument that is not in \<open>cmd\<close>, and
  otherwise every occurrence of the argument is removed from \<open>cmd\<close>.
\<close>

fun strip_unknown :: "string list \<Rightarrow> string list \<Rightarrow> string list \<Rightarrow> string list \<times> string list" where
  "strip_unknown [] cmd bad = (cmd, bad)"
| "strip_unknown (arg # args) cmd bad =
     (let bad' = append_new bad arg
      in if arg \<notin> set cmd then (cmd, bad')
         else strip_unknown args (removeAll arg cmd) bad')"

text \<open>
  The \<^verbatim>\<open>while retry > 0\<close> loop. The result is the state with the values of the local
  variables \<open>stdout\<close> and \<open>stderr\<close> when the loop is left, or with the exception that
  \<^verbatim>\<open>Popen\<close> raises: \<^verbatim>\<open>IndexError\<close> on an empty argument list, \<^verbatim>\<open>OSError\<close> where the
  program cannot be started. A process that has started is entered in the logs.
\<close>

fun retry_loop :: "popen \<Rightarrow> nat \<Rightarrow> string list \<Rightarrow> string list \<Rightarrow> source \<Rightarrow> string \<Rightarrow> string
    \<Rightarrow> source \<times> (error + string \<times> string)" where
  "retry_loop clang 0 src cmd st stdout stderr = (st, Inr (stdout, stderr))"
| "retry_loop clang (Suc retry) src cmd st stdout stderr =
     (if cmd = [] then (st, Inl IndexError)
      else (case clang (fsys st) cmd (str_join [newline] src) of
              None \<Rightarrow> (st, Inl OSError)
            | Some (out, err, fs') \<Rightarrow>
                (let st1 = st\<lparr>spawned := spawned st @ [cmd], outputs := outputs st @ [(out, err)],
                              fsys := fs'\<rparr>
                 in if contains ''unknown argument'' err then
                      (case strip_unknown (unknown_args err) cmd (bad_flags st1) of
                         (cmd', bad') \<Rightarrow>
                           retry_loop clang retry src cmd' (st1\<lparr>bad_flags := bad'\<rparr>) stdout err)
                    else (st1, Inr (out, err)))))"

definition call_clang :: "popen \<Rightarrow> string list \<Rightarrow> string list \<Rightarrow> bool \<Rightarrow> source
    \<Rightarrow> (error + string list) \<times> source" where
  "call_clang clang src cmd ret_stderr st =
     (let cmd0 = ''clang'' # filter (\<lambda>arg. arg \<notin> set (bad_flags st)) cmd
      in case retry_loop clang 5 src cmd0 st [] [] of
           (st', Inl e) \<Rightarrow> (Inl e, st')
         | (st', Inr (stdout, stderr)) \<Rightarrow>
             (Inr (if ret_stderr then split_nl stderr else split_nl stdout), st'))"

text \<open>
  Two ways to read an error stream. It \<^emph>\<open>reports\<close> \<open>a\<close> when its first
  \<^verbatim>\<open>unknown argument: '\<close> is followed by \<open>a\<close> and a closing quote, where \<open>a\<close> is not
  empty and holds no quote itself: the first diagnostic, in the words of clang, is
  about \<open>a\<close>. It \<^emph>\<open>names\<close> \<open>x\<close> when the text \<^verbatim>\<open>unknown argument: 'x'\<close> occurs in it
  anywhere.
\<close>

definition reports_unknown :: "string \<Rightarrow> string \<Rightarrow> bool" where
  "reports_unknown err a =
     (a \<noteq> [] \<and> squote \<notin> set a \<and>
      (case find_sub unknown_key err of
         None \<Rightarrow> False
       | Some i \<Rightarrow> startswith (drop (i + length unknown_key) err) (a @ [squote])))"

definition names_unknown :: "string \<Rightarrow> string \<Rightarrow> bool" where
  "names_unknown err x = contains (unknown_key @ x @ [squote]) err"

section \<open>More strings, paths and the environment\<close>

text \<open>\<^verbatim>\<open>s.split(c)\<close> for a separator of one character.\<close>

fun split_on :: "char \<Rightarrow> string \<Rightarrow> string list" where
  "split_on sep [] = [[]]"
| "split_on sep (c # cs) =
     (if c = sep then [] # split_on sep cs
      else (case split_on sep cs of [] \<Rightarrow> [[c]] | l # ls \<Rightarrow> (c # l) # ls))"

text \<open>\<^verbatim>\<open>s.endswith(p)\<close>, \<^verbatim>\<open>s.rstrip()\<close>, \<^verbatim>\<open>s.strip()\<close> and \<^verbatim>\<open>s.replace('~', home)\<close>.\<close>

definition endswith :: "string \<Rightarrow> string \<Rightarrow> bool" where
  "endswith s p = startswith (rev s) (rev p)"

definition rstrip :: "string \<Rightarrow> string" where
  "rstrip s = rev (dropWhile isspace (rev s))"

definition strip :: "string \<Rightarrow> string" where
  "strip s = dropWhile isspace (rstrip s)"

definition replace_tilde :: "string \<Rightarrow> string \<Rightarrow> string" where
  "replace_tilde home s = concat (map (\<lambda>c. if c = CHR ''~'' then home else [c]) s)"

text \<open>\<^verbatim>\<open>'%d' % n\<close>\<close>

fun show_nat :: "nat \<Rightarrow> string" where
  "show_nat n =
     (if n < 10 then [char_of (48 + n)]
      else show_nat (n div 10) @ [char_of (48 + n mod 10)])"

declare show_nat.simps [simp del]

definition show_int :: "int \<Rightarrow> string" where
  "show_int i = (if i < 0 then CHR ''-'' # show_nat (nat (- i)) else show_nat (nat i))"

text \<open>The functions of \<^verbatim>\<open>posixpath\<close> that the source calls.\<close>

definition path_join :: "string \<Rightarrow> string \<Rightarrow> string" where
  "path_join a b =
     (if startswith b ''/'' then b
      else if a = [] \<or> endswith a ''/'' then a @ b
      else a @ ''/'' @ b)"

definition dirname :: "string \<Rightarrow> string" where
  "dirname p =
     (let head = rev (dropWhile (\<lambda>c. c \<noteq> CHR ''/'') (rev p))
      in if head \<noteq> [] \<and> \<not> (\<forall>c \<in> set head. c = CHR ''/'')
         then rev (dropWhile (\<lambda>c. c = CHR ''/'') (rev head))
         else head)"

definition basename :: "string \<Rightarrow> string" where
  "basename p = rev (takeWhile (\<lambda>c. c \<noteq> CHR ''/'') (rev p))"

definition splitext :: "string \<Rightarrow> string \<times> string" where
  "splitext p =
     (let base = basename p;
          name = dropWhile (\<lambda>c. c = CHR ''.'') base
      in if CHR ''.'' \<in> set name
         then (let ext = CHR ''.'' # rev (takeWhile (\<lambda>c. c \<noteq> CHR ''.'') (rev p))
               in (take (length p - length ext) p, ext))
         else (p, []))"

fun normpath_comps :: "bool \<Rightarrow> string list \<Rightarrow> string list \<Rightarrow> string list" where
  "normpath_comps initial_slashes new_comps [] = new_comps"
| "normpath_comps initial_slashes new_comps (cpt # comps) =
     (if cpt = [] \<or> cpt = ''.'' then normpath_comps initial_slashes new_comps comps
      else if cpt \<noteq> ''..'' \<or> (\<not> initial_slashes \<and> new_comps = [])
                \<or> (new_comps \<noteq> [] \<and> last new_comps = ''..'')
           then normpath_comps initial_slashes (new_comps @ [cpt]) comps
      else if new_comps \<noteq> [] then normpath_comps initial_slashes (butlast new_comps) comps
      else normpath_comps initial_slashes new_comps comps)"

definition normpath :: "string \<Rightarrow> string" where
  "normpath path =
     (if path = [] then ''.''
      else (let initial_slashes = (if startswith path ''//'' \<and> \<not> startswith path ''///'' then 2
                                   else if startswith path ''/'' then 1 else (0::nat));
                comps = normpath_comps (0 < initial_slashes) [] (split_on (CHR ''/'') path);
                path' = replicate initial_slashes (CHR ''/'') @ str_join ''/'' comps
            in if path' = [] then ''.'' else path'))"

text \<open>
  \<^verbatim>\<open>os.path.expandvars\<close>: a reference \<^verbatim>\<open>$name\<close> or \<^verbatim>\<open>${name}\<close> is replaced by the
  value of the variable when it is set, and left as it is otherwise; the inserted value
  is not scanned again.
\<close>

definition isword :: "char \<Rightarrow> bool" where
  "isword c =
     (let n = (of_char c :: nat)
      in c = CHR ''_'' \<or> (97 \<le> n \<and> n \<le> 122) \<or> (65 \<le> n \<and> n \<le> 90) \<or> (48 \<le> n \<and> n \<le> 57))"

definition var_ref :: "string \<Rightarrow> (string \<times> string \<times> string) option" where
  "var_ref s =
     (if takeWhile isword s \<noteq> [] then Some (takeWhile isword s, takeWhile isword s, dropWhile isword s)
      else (case s of
              c # cs \<Rightarrow>
                if c = CHR ''{'' \<and> CHR ''}'' \<in> set cs
                then (let name = takeWhile (\<lambda>x. x \<noteq> CHR ''}'') cs
                      in Some (name, CHR ''{'' # name @ ''}'', tl (dropWhile (\<lambda>x. x \<noteq> CHR ''}'') cs)))
                else None
            | [] \<Rightarrow> None))"

lemma var_ref_shorter: "var_ref s = Some (name, raw, rest) \<Longrightarrow> length rest \<le> length s"
  using length_dropWhile_le[of isword s] length_dropWhile_le[of "\<lambda>x. x \<noteq> CHR ''}''" "tl s"]
  by (auto simp: var_ref_def Let_def split: if_splits list.splits)

function expandvars :: "(string \<rightharpoonup> string) \<Rightarrow> string \<Rightarrow> string" where
  "expandvars environ [] = []"
| "expandvars environ (c # cs) =
     (if c = CHR ''$'' then
        (case var_ref cs of
           None \<Rightarrow> c # expandvars environ cs
         | Some (name, raw, rest) \<Rightarrow>
             (case environ name of
                None \<Rightarrow> c # raw @ expandvars environ rest
              | Some v \<Rightarrow> v @ expandvars environ rest))
      else c # expandvars environ cs)"
  by pat_completeness auto
termination
  by (relation "measure (\<lambda>(environ, s). length s)") (auto dest: var_ref_shorter simp: less_Suc_eq_le)

section \<open>Constants of the module\<close>

definition repo_dirs :: "string list" where
  "repo_dirs = [''.git'', ''.hg'', ''.svn'']"

text \<open>
  \<^verbatim>\<open>flag_pattern\<close>. The string of the source opens with \<^verbatim>\<open>r""""\<close>, so that its first
  character after the three quotes is a double quote, and the pieces that
  \<^verbatim>\<open>split()\<close> gives are joined without a separator: the first alternative is
  \<^verbatim>\<open>"-resource-dir\<close> with that quote.
\<close>

definition flag_pattern :: rx where
  "flag_pattern =
     Alt (Lit (dquote # ''-resource-dir''))
         (Seq (StarLazy (Seq (Chr (CHR ''-''))
                             (Alts [Lit ''internal'', Lit ''externc'', Lit ''c'', Lit ''cxx'',
                                    Lit ''objc''])))
              (Seq (Lit ''-i'')
                   (Alts [Seq (Lit ''nclude-'')
                              (Seq (Chr (CHR ''p''))
                                   (Seq (Cls (\<lambda>c. c = CHR ''c'' \<or> c = CHR ''t''))
                                        (Chr (CHR ''h'')))),
                          Lit ''quote'', Lit ''prefix'', Lit ''sysroot'', Lit ''system'',
                          Lit ''framework'', Lit ''dirafter'', Lit ''macros'', Lit ''withprefix'',
                          Lit ''withprefixbefore'', Lit ''withsysroot''])))"

text \<open>\<^verbatim>\<open>-[IDF]|\<close> followed by \<^verbatim>\<open>flag_pattern\<close>, as \<open>clean_flags\<close> and \<open>find_db_flags\<close> build it.\<close>

definition idf_flag_pattern :: rx where
  "idf_flag_pattern =
     Alt (Seq (Chr (CHR ''-'')) (Cls (\<lambda>c. c = CHR ''I'' \<or> c = CHR ''D'' \<or> c = CHR ''F'')))
         flag_pattern"

definition std_default :: "(string \<times> string) list" where
  "std_default = [(''c'', ''c11''), (''cpp'', ''c++1z''), (''objc'', ''c11''), (''objcpp'', ''c++1z'')]"

definition lang_names :: "(string \<times> string) list" where
  "lang_names = [(''c'', ''c''), (''cpp'', ''c++''), (''objc'', ''objective-c''),
                 (''objcpp'', ''objective-c++'')]"

definition darwin_versions :: "(string \<times> string \<times> nat) list" where
  "darwin_versions =
     [(''10.1'', ''10.1.5'', 1010), (''10.1.5'', ''10.1.5'', 1010),
      (''10.2'', ''10.2.8'', 1020), (''10.2.8'', ''10.2.8'', 1020),
      (''10.3'', ''10.3.9'', 1030), (''10.3.0'', ''10.3.0'', 1030), (''10.3.9'', ''10.3.9'', 1030),
      (''10.4'', ''10.4u'', 1040), (''10.5'', ''10.5'', 1050), (''10.6'', ''10.6'', 1060),
      (''10.7'', ''10.7'', 1070), (''10.8'', ''10.8'', 1080), (''10.9'', ''10.9'', 1090),
      (''10.10'', ''10.10'', 100000), (''10.11'', ''10.11'', 101100)]"

section \<open>Errors and the host\<close>

text \<open>A value given for flags is a string or a list of strings.\<close>

datatype flags_arg = Text string | Tokens "string list"

text \<open>
  A value that \<^verbatim>\<open>json.load\<close> returns. A number is kept as it is written, and an object
  as the list of its members in the order of the text.
\<close>

datatype json = JNull | JBool bool | JNum string | JStr string | JArr "json list"
  | JObj "(string \<times> json) list"

text \<open>
  What the process gets from its host and from library functions that are not modelled:
  the environment, the home directory that \<^verbatim>\<open>expanduser('~')\<close> gives, the directory of
  temporary files, the value of \<^verbatim>\<open>darwin_sdk_paths\<close> on the platform,
  \<^verbatim>\<open>shlex.split(s, comments=True, posix=True)\<close> (\<open>None\<close> where it raises
  \<^verbatim>\<open>ValueError\<close>), \<^verbatim>\<open>json.load\<close> on the text of a file (\<open>None\<close> where it raises
  \<^verbatim>\<open>ValueError\<close>), and the hexadecimal SHA-1 digest of a string.
\<close>

record host =
  environ :: "string \<rightharpoonup> string"
  home :: string
  tempdir :: string
  darwin_sdk_paths :: "string list"
  shlex_split :: "string \<Rightarrow> string list option"
  json_load :: "string \<Rightarrow> json option"
  sha1_hexdigest :: "string \<Rightarrow> string"

section \<open>Matches with two groups\<close>

text \<open>
  A match of \<^verbatim>\<open>(g1)mid(g2)\<close> at the start of \<open>s\<close>: the texts of the two groups and the
  remainder after the match; and all matches of the pattern in \<open>s\<close> from left to right.
\<close>

definition rx_group2 :: "rx \<Rightarrow> rx \<Rightarrow> rx \<Rightarrow> string \<Rightarrow> ((string \<times> string) \<times> string) option" where
  "rx_group2 g1 mid g2 s =
     (case concat (map (\<lambda>r1. concat (map (\<lambda>r2. map (\<lambda>r3. ((take (length s - length r1) s,
                                                               take (length r2 - length r3) r2), r3))
                                                   (rx_run g2 r2))
                                       (rx_run mid r1)))
                       (rx_run g1 s)) of
        [] \<Rightarrow> None
      | m # _ \<Rightarrow> Some m)"

function finditer2 :: "rx \<Rightarrow> rx \<Rightarrow> rx \<Rightarrow> string \<Rightarrow> (string \<times> string) list" where
  "finditer2 g1 mid g2 s =
     (if s = [] then []
      else (case rx_group2 g1 mid g2 s of
              None \<Rightarrow> finditer2 g1 mid g2 (tl s)
            | Some (grps, rest) \<Rightarrow>
                if length rest < length s then grps # finditer2 g1 mid g2 rest
                else finditer2 g1 mid g2 (tl s)))"
  by pat_completeness auto
termination
  by (relation "measure (\<lambda>(g1, mid, g2, s). length s)") auto

declare finditer2.simps [simp del]

text \<open>\<^verbatim>\<open>(pattern)\s*(\S+)\<close> over a string.\<close>

definition flag_items :: "rx \<Rightarrow> string \<Rightarrow> (string \<times> string) list" where
  "flag_items pat s = finditer2 pat (Star (Cls isspace)) (Plus (Cls (\<lambda>c. \<not> isspace c))) s"

text \<open>\<^verbatim>\<open>chain.from_iterable(flags)\<close>\<close>

definition from_pairs :: "(string \<times> string) list \<Rightarrow> string list" where
  "from_pairs flags = concat (map (\<lambda>(flag, val). [flag, val]) flags)"

section \<open>clean_flags\<close>

text \<open>The replacement of \<^verbatim>\<open>~\<close> at lines 179 to 182, on a flag whose variables are expanded.\<close>

definition expand_home :: "host \<Rightarrow> string \<Rightarrow> string" where
  "expand_home h flag =
     (if startswith flag ''~'' \<or> (contains ''~'' flag \<and> rx_match idf_flag_pattern flag)
      then replace_tilde (home h) flag
      else flag)"

text \<open>
  The loop of \<open>clean_flags\<close> with its list \<open>out\<close> and the value of
  \<^verbatim>\<open>self.darwin_version\<close>. \<^verbatim>\<open>flag.split('=', 1)[1]\<close> is what follows the first \<^verbatim>\<open>=\<close>.
\<close>

fun clean_loop :: "host \<Rightarrow> string list \<Rightarrow> string list \<Rightarrow> (string \<times> nat) option
    \<Rightarrow> string list \<times> (string \<times> nat) option" where
  "clean_loop h [] out dv = (out, dv)"
| "clean_loop h (flag # flags) out dv =
     (let flag1 = expandvars (environ h) flag
      in if startswith flag1 ''-darwin=''
         then clean_loop h flags out
                (map_of darwin_versions (tl (dropWhile (\<lambda>c. c \<noteq> CHR ''='') flag1)))
         else clean_loop h flags (out @ [expand_home h flag1]) dv)"

text \<open>\<open>clean_flags\<close> on a value that is not a string, and in general.\<close>

definition clean_tokens :: "host \<Rightarrow> string list \<Rightarrow> source \<Rightarrow> string list \<times> source" where
  "clean_tokens h flags st =
     (case clean_loop h flags [] (darwin_version st) of
        (out, dv) \<Rightarrow> (out, st\<lparr>darwin_version := dv\<rparr>))"

definition clean_flags :: "host \<Rightarrow> flags_arg \<Rightarrow> source \<Rightarrow> (error + string list) \<times> source" where
  "clean_flags h flags st =
     (case flags of
        Tokens ts \<Rightarrow> (case clean_tokens h ts st of (out, st') \<Rightarrow> (Inr out, st'))
      | Text s \<Rightarrow>
          (case shlex_split h s of
             None \<Rightarrow> (Inl ValueError, st)
           | Some ts \<Rightarrow> (case clean_tokens h ts st of (out, st') \<Rightarrow> (Inr out, st'))))"

section \<open>get_clang_flags\<close>

definition get_clang_flags :: "host \<Rightarrow> popen \<Rightarrow> string \<Rightarrow> source
    \<Rightarrow> (error + string list) \<times> source" where
  "get_clang_flags h clang lang st =
     (case clang_flags st lang of
        Some flags \<Rightarrow> (Inr flags, st)
      | None \<Rightarrow>
          (case call_clang clang [] [''-fsyntax-only'', ''-x'', lang, ''-'', ''-v''] True st of
             (Inl e, st1) \<Rightarrow> (Inl e, st1)
           | (Inr stdout, st1) \<Rightarrow>
               (let flags = foldl append_new [] (flag_items flag_pattern (str_join '' '' stdout))
                in case clean_tokens h (from_pairs flags) st1 of
                     (cleaned, st2) \<Rightarrow>
                       (Inr cleaned, st2\<lparr>clang_flags := (clang_flags st2)(lang \<mapsto> cleaned)\<rparr>))))"

section \<open>get_user_flags\<close>

definition parse_clang_flags_file :: "host \<Rightarrow> string \<Rightarrow> source \<Rightarrow> (error + string list) \<times> source" where
  "parse_clang_flags_file h filename st =
     (case read_text (fsys st) filename of
        None \<Rightarrow> (Inr [], st)
      | Some content \<Rightarrow> clean_flags h (Text content) st)"

text \<open>\<^verbatim>\<open>set(xs).isdisjoint(ys)\<close>\<close>

definition isdisjoint :: "string list \<Rightarrow> string list \<Rightarrow> bool" where
  "isdisjoint xs ys = list_all (\<lambda>x. x \<notin> set ys) xs"

lemma rev_dropWhile_rev_prefix: "prefix (rev (dropWhile P (rev xs))) xs"
proof -
  have "rev xs = takeWhile P (rev xs) @ dropWhile P (rev xs)"
    by simp
  then have "xs = rev (dropWhile P (rev xs)) @ rev (takeWhile P (rev xs))"
    by (metis rev_append rev_rev_ident)
  then show ?thesis
    by (metis prefixI)
qed

lemma dirname_prefix: "prefix (dirname p) p"
proof -
  let ?head = "rev (dropWhile (\<lambda>c. c \<noteq> CHR ''/'') (rev p))"
  have "prefix ?head p"
    by (rule rev_dropWhile_rev_prefix)
  moreover have "prefix (rev (dropWhile (\<lambda>c. c = CHR ''/'') (rev ?head))) ?head"
    by (rule rev_dropWhile_rev_prefix)
  ultimately show ?thesis
    unfolding dirname_def Let_def by (auto intro: prefix_order.trans)
qed

lemma dirname_shorter: "dirname p \<noteq> p \<Longrightarrow> length (dirname p) < length p"
  using dirname_prefix[of p] by (metis prefix_length_less strict_prefixI)

text \<open>
  The \<^verbatim>\<open>while parent != last_parent\<close> loop of \<open>get_user_flags\<close>. The first component
  of the result lists the directories the loop has examined, in order; the second is
  the flag file found, \<open>None\<close> when the loop ended without one, or the error of
  \<^verbatim>\<open>os.listdir\<close>.
\<close>

function walk_up :: "fs \<Rightarrow> string \<Rightarrow> string \<Rightarrow> string list \<times> (error + string option)" where
  "walk_up f parent last_parent =
     (if parent = last_parent then ([], Inr None)
      else (let file = path_join parent ''.clang''
            in if isfile f file then ([parent], Inr (Some file))
               else (case listdir f parent of
                       None \<Rightarrow> ([parent], Inl OSError)
                     | Some names \<Rightarrow>
                         if isdisjoint names repo_dirs then ([parent], Inr None)
                         else (case walk_up f (dirname parent) parent of
                                 (visited, r) \<Rightarrow> (parent # visited, r)))))"
  by pat_completeness auto
termination
proof (relation "measure (\<lambda>(f, parent, last_parent).
                    length parent + (if parent = last_parent then 0 else 1))")
  show "wf (measure (\<lambda>(f, parent, last_parent).
                    length parent + (if parent = last_parent then 0 else 1)))"
    by simp
next
  fix f :: fs and parent last_parent :: string and x xa
  assume "parent \<noteq> last_parent"
  then show "((f, dirname parent, parent), (f, parent, last_parent))
      \<in> measure (\<lambda>(f, parent, last_parent). length parent + (if parent = last_parent then 0 else 1))"
    using dirname_shorter[of parent] by (cases "dirname parent = parent") auto
qed

declare walk_up.simps [simp del]

definition get_user_flags :: "host \<Rightarrow> string \<Rightarrow> flags_arg option \<Rightarrow> source
    \<Rightarrow> (error + string list) \<times> source" where
  "get_user_flags h cwd var_flags st =
     (let flags = (case var_flags of None \<Rightarrow> Tokens [] | Some v \<Rightarrow> v)
      in case user_flags st cwd of
           Some memo \<Rightarrow>
             (case memo of
                Some file \<Rightarrow>
                  if file \<noteq> [] then parse_clang_flags_file h file st else clean_flags h flags st
              | None \<Rightarrow> clean_flags h flags st)
         | None \<Rightarrow>
             (case walk_up (fsys st) cwd [] of
                (visited, Inl e) \<Rightarrow> (Inl e, st)
              | (visited, Inr (Some file)) \<Rightarrow>
                  parse_clang_flags_file h file (st\<lparr>user_flags := (user_flags st)(cwd \<mapsto> Some file)\<rparr>)
              | (visited, Inr None) \<Rightarrow>
                  clean_flags h flags (st\<lparr>user_flags := (user_flags st)(cwd \<mapsto> None)\<rparr>)))"

section \<open>find_file and find_db_flags\<close>

text \<open>
  \<open>find_file\<close> over the tree that \<^verbatim>\<open>os.walk\<close> goes through: the files of a directory
  first, then its subdirectories in order, those named in \<open>repo_dirs\<close> left out.
\<close>

fun find_in_tree :: "string \<Rightarrow> string \<Rightarrow> dirtree \<Rightarrow> string option"
  and find_in_dirs :: "string \<Rightarrow> string \<Rightarrow> (string \<times> dirtree) list \<Rightarrow> string option" where
  "find_in_tree root filename (DirTree ds fs) =
     (if filename \<in> set fs then Some (path_join root filename)
      else find_in_dirs root filename ds)"
| "find_in_dirs root filename [] = None"
| "find_in_dirs root filename ((d, t) # ds) =
     (if d \<in> set repo_dirs then find_in_dirs root filename ds
      else (case find_in_tree (path_join root d) filename t of
              Some found \<Rightarrow> Some found
            | None \<Rightarrow> find_in_dirs root filename ds))"

definition find_file :: "fs \<Rightarrow> string \<Rightarrow> string \<Rightarrow> string option" where
  "find_file f path filename = find_in_tree path filename (walk f path)"

text \<open>
  The body of the inner loop at lines 320 to 330, for the matches of one command: a value
  is joined to the directory unless the flag is \<^verbatim>\<open>-D\<close>, and the pair is appended to
  \<open>flags\<close> when it is not there yet.
\<close>

definition add_db_item :: "string \<Rightarrow> (string \<times> string) list \<Rightarrow> string \<times> string
    \<Rightarrow> (string \<times> string) list" where
  "add_db_item dir flags item =
     (case item of
        (flag, val) \<Rightarrow>
          append_new flags (flag, if flag \<noteq> ''-D'' then normpath (path_join dir val) else val))"

text \<open>
  What the \<^verbatim>\<open>for entry in json.load(fp)\<close> loop goes through: the elements of an array,
  the keys of an object, the characters of a string; any other value cannot be iterated
  and \<^verbatim>\<open>TypeError\<close> is raised.
\<close>

definition json_iter :: "json \<Rightarrow> error + json list" where
  "json_iter v =
     (case v of
        JArr xs \<Rightarrow> Inr xs
      | JObj kvs \<Rightarrow> Inr (map JStr (rev (remdups (rev (map fst kvs)))))
      | JStr s \<Rightarrow> Inr (map (\<lambda>c. JStr [c]) s)
      | _ \<Rightarrow> Inl TypeError)"

text \<open>\<^verbatim>\<open>entry.get(key)\<close> on an object; the last member with the key counts.\<close>

definition json_get :: "(string \<times> json) list \<Rightarrow> string \<Rightarrow> json option" where
  "json_get kvs key = map_of (rev kvs) key"

text \<open>
  The loop over the records of the database, lines 316 to 333. The list \<open>flags\<close> is
  created once, before the loop, and is carried from one record to the next. An entry
  that is not an object has no \<^verbatim>\<open>get\<close> (\<^verbatim>\<open>AttributeError\<close>); \<^verbatim>\<open>os.path.splitext\<close>
  and \<^verbatim>\<open>re.finditer\<close> raise \<^verbatim>\<open>TypeError\<close> on a value that is not a string, and so does
  \<^verbatim>\<open>os.path.join\<close>, which is reached when a flag other than \<^verbatim>\<open>-D\<close> is found.
\<close>

fun db_loop :: "string \<Rightarrow> json list \<Rightarrow> (string \<times> string) list \<Rightarrow> (string \<rightharpoonup> string list)
    \<Rightarrow> error + (string \<rightharpoonup> string list)" where
  "db_loop cwd [] flags entries = Inr entries"
| "db_loop cwd (entry # rest) flags entries =
     (case entry of
        JObj kvs \<Rightarrow>
          (case (case json_get kvs ''file'' of None \<Rightarrow> Some [] | Some (JStr f) \<Rightarrow> Some f
                 | Some _ \<Rightarrow> None) of
             None \<Rightarrow> Inl TypeError
           | Some name \<Rightarrow>
               (let file = fst (splitext name)
                in case json_get kvs ''command'' of
                     Some (JStr cmdline) \<Rightarrow>
                       (let items = flag_items idf_flag_pattern cmdline
                        in case (case json_get kvs ''directory'' of
                                   None \<Rightarrow> Some cwd
                                 | Some (JStr d) \<Rightarrow> Some d
                                 | Some _ \<Rightarrow> if list_ex (\<lambda>item. fst item \<noteq> ''-D'') items
                                            then None else Some []) of
                             None \<Rightarrow> Inl TypeError
                           | Some dir \<Rightarrow>
                               (let flags' = foldl (add_db_item dir) flags items
                                in db_loop cwd rest flags' (entries(file \<mapsto> from_pairs flags'))))
                   | _ \<Rightarrow> Inl TypeError))
      | _ \<Rightarrow> Inl AttributeError)"

definition find_db_flags :: "host \<Rightarrow> string \<Rightarrow> string \<Rightarrow> source
    \<Rightarrow> (error + string list option) \<times> source" where
  "find_db_flags h cwd bufname st =
     (let absname = fst (splitext (path_join cwd bufname))
      in case db_files st cwd of
           Some idx \<Rightarrow> (Inr (db_entries idx absname), st)
         | None \<Rightarrow>
             (case find_file (fsys st) cwd ''compile_commands.json'' of
                None \<Rightarrow> (Inr None, st)
              | Some dbf \<Rightarrow>
                  (case read_text (fsys st) dbf of
                     None \<Rightarrow> (Inl OSError, st)
                   | Some content \<Rightarrow>
                       (case json_load h content of
                          None \<Rightarrow> (Inl ValueError, st)
                        | Some v \<Rightarrow>
                            (case json_iter v of
                               Inl e \<Rightarrow> (Inl e, st)
                             | Inr records \<Rightarrow>
                                 (case db_loop cwd records [] Map.empty of
                                    Inl e \<Rightarrow> (Inl e, st)
                                  | Inr entries \<Rightarrow>
                                      (Inr (entries absname),
                                       st\<lparr>db_files := (db_files st)(cwd \<mapsto>
                                             \<lparr>db_file = dbf, db_entries = entries\<rparr>)\<rparr>)))))))"

section \<open>generate_pch\<close>

definition pch_cache :: "host \<Rightarrow> string" where
  "pch_cache h = path_join (tempdir h) ''deoplete-clang2''"

text \<open>The path of the cached artifact of one prefix header, lines 363 to 366.\<close>

definition pch_generated :: "host \<Rightarrow> string list \<Rightarrow> string list \<Rightarrow> string \<Rightarrow> string" where
  "pch_generated h cmd flags pch =
     path_join (pch_cache h)
       (basename pch @ ''.'' @ sha1_hexdigest h (concat (cmd @ flags) @ pch) @ ''.h'')"

text \<open>
  The \<^verbatim>\<open>for pch in glob.glob(...)\<close> loop. The artifact's path is computed from the
  \<open>cmd\<close> and \<open>flags\<close> the operation was called with (\<open>hflags\<close> is filled before the loop).
\<close>

fun pch_loop :: "host \<Rightarrow> popen \<Rightarrow> string list \<Rightarrow> string list \<Rightarrow> string list \<Rightarrow> source
    \<Rightarrow> (error + string list) \<times> source" where
  "pch_loop h clang [] cmd flags st = (Inr cmd, st)"
| "pch_loop h clang (pch # pchs) cmd flags st =
     (let generated = pch_generated h cmd flags pch
      in case (if \<not> path_exists (fsys st) generated
                  \<or> getmtime (fsys st) pch > getmtime (fsys st) generated
               then call_clang clang []
                      ([''-cc1''] @ cmd @ flags @ [pch, ''-emit-pch'', ''-o'', generated]) False st
               else (Inr [], st)) of
           (Inl e, st1) \<Rightarrow> (Inl e, st1)
         | (Inr lines, st1) \<Rightarrow>
             if path_exists (fsys st1) generated then (Inr (cmd @ [''-include-pch'', generated]), st1)
             else pch_loop h clang pchs cmd flags st1)"

text \<open>\<^verbatim>\<open>os.makedirs(pch_cache)\<close>: afterwards the directory exists.\<close>

definition makedirs :: "string \<Rightarrow> fs \<Rightarrow> fs" where
  "makedirs p f = f\<lparr>isdir := (isdir f)(p := True), path_exists := (path_exists f)(p := True)\<rparr>"

text \<open>Lines 352 and 353: the cache directory is created when it is missing.\<close>

definition ensure_pch_cache :: "host \<Rightarrow> source \<Rightarrow> source" where
  "ensure_pch_cache h st =
     (if \<not> path_exists (fsys st) (pch_cache h)
      then st\<lparr>fsys := makedirs (pch_cache h) (fsys st)\<rparr> else st)"

definition generate_pch :: "host \<Rightarrow> popen \<Rightarrow> string \<Rightarrow> string list \<Rightarrow> string list \<Rightarrow> source
    \<Rightarrow> (error + string list \<times> string list) \<times> source" where
  "generate_pch h clang cwd cmd flags st =
     (let st0 = ensure_pch_cache h st
      in if cwd = [] then (Inr (cmd, flags), st0)
         else (case pch_loop h clang (glob (fsys st0) (path_join cwd ''*-Prefix.pch'')) cmd flags st0 of
                 (Inl e, st') \<Rightarrow> (Inl e, st')
               | (Inr cmd', st') \<Rightarrow> (Inr (cmd', flags), st')))"

section \<open>parse_completion\<close>

text \<open>
  \<^verbatim>\<open>re.sub(prefix(group)suffix, repl, s)\<close> where the replacement is a function of the
  text of the group.
\<close>

function rx_sub :: "rx \<Rightarrow> rx \<Rightarrow> rx \<Rightarrow> (string \<Rightarrow> string) \<Rightarrow> string \<Rightarrow> string" where
  "rx_sub pre g post repl s =
     (if s = [] then []
      else (case rx_group pre g post s of
              None \<Rightarrow> hd s # rx_sub pre g post repl (tl s)
            | Some (grp, rest) \<Rightarrow>
                if length rest < length s then repl grp @ rx_sub pre g post repl rest
                else hd s # rx_sub pre g post repl (tl s)))"
  by pat_completeness auto
termination
  by (relation "measure (\<lambda>(pre, g, post, repl, s). length s)") auto

declare rx_sub.simps [simp del]

text \<open>
  \<^verbatim>\<open>re.sub(r'\)(\S)', r') \1', s)\<close>, \<^verbatim>\<open>re.sub(r'(\S)\(', r'\1 (', s)\<close> and
  \<^verbatim>\<open>re.sub(r'<#([^#]+)#>', r'\1', s)\<close>.
\<close>

definition sub_close :: "string \<Rightarrow> string" where
  "sub_close s = rx_sub (Chr (CHR '')'')) (Cls (\<lambda>c. \<not> isspace c)) Eps (\<lambda>g. '') '' @ g) s"

definition sub_open :: "string \<Rightarrow> string" where
  "sub_open s = rx_sub Eps (Cls (\<lambda>c. \<not> isspace c)) (Chr (CHR ''('')) (\<lambda>g. g @ '' ('') s"

definition sub_placeholder :: "string \<Rightarrow> string" where
  "sub_placeholder s = rx_sub (Lit ''<#'') (Plus (Cls (\<lambda>c. c \<noteq> CHR ''#''))) (Lit ''#>'') (\<lambda>g. g) s"

text \<open>The type prefix \<^verbatim>\<open>[#...#]\<close> of a completion: the type and what follows it.\<close>

definition take_type :: "string \<Rightarrow> string \<times> string" where
  "take_type cpl =
     (if startswith cpl ''[#'' then
        (case find_sub ''#]'' cpl of
           Some i \<Rightarrow> (take (i - 2) (drop 2 cpl), drop (i + 2) cpl)
         | None \<Rightarrow> ([], cpl))
      else ([], cpl))"

definition parse_completion :: "string \<Rightarrow> completion" where
  "parse_completion item =
     (case (case find_sub '' : '' item of
              Some i \<Rightarrow> (take i item, drop (i + 3) item)
            | None \<Rightarrow> (item, item)) of
        (name, cpl) \<Rightarrow>
          if name = ''Pattern'' then
            (case take_type cpl of
               (ctype, cpl1) \<Rightarrow>
                 (let cpl2 = sub_open (sub_close cpl1)
                  in \<lparr>word = cpl2, abbr = cpl2, kind = ctype, info = sub_placeholder cpl2,
                      icase = 1, dup = 1\<rparr>))
          else
            (case take_type cpl of
               (ctype, cpl1) \<Rightarrow>
                 (let info0 = (if endswith cpl1 '')'' then sub_placeholder cpl1 else []);
                      info1 = (if ctype \<noteq> [] then ''('' @ ctype @ '')'' @ info0 else info0)
                  in \<lparr>word = cpl1, abbr = name, kind = ctype, info = info1,
                      icase = 1, dup = 1\<rparr>)))"

section \<open>apply_darwin_flags\<close>

text \<open>
  The flags of the SDK are added when a directory of the SDK exists. When none exists the
  source may start a download in a background thread, which is outside this model, and
  returns the flags as they are.
\<close>

definition apply_darwin_flags :: "host \<Rightarrow> fs \<Rightarrow> string \<times> nat \<Rightarrow> string list \<Rightarrow> string list" where
  "apply_darwin_flags h f version flags =
     (let sdk_name = ''MacOSX'' @ fst version @ ''.sdk''
      in case find (isdir f) (map (\<lambda>p. path_join p sdk_name) (darwin_sdk_paths h)) of
           None \<Rightarrow> flags
         | Some sdk_path \<Rightarrow>
             flags @
             [''-D__MACH__'',
              ''-D__MAC_OS_X_VERSION_MAX_ALLOWED='' @ show_nat (snd version),
              ''-D__APPLE_CPP__'',
              ''-DTARGET_CPU_X86_64'',
              ''-fblocks'',
              ''-fasm-blocks'',
              ''-fno-builtin'',
              ''-isysroot'' @ sdk_path,
              ''-iframework'' @ path_join sdk_path ''System/Library/Frameworks'',
              ''-isystem'' @ path_join sdk_path ''usr/include''])"

section \<open>gather_candidates\<close>

text \<open>
  The keys of the context that the operations read, and the lines of the current buffer.
  A variable of \<^verbatim>\<open>context['vars']\<close> that may be unset is an option;
  \<open>ctx_clang2_pattern\<close> is \<open>None\<close> when the key is missing or the pattern is empty.
\<close>

record request =
  ctx_input :: string
  ctx_filetype :: string
  ctx_complete_str :: string
  ctx_complete_position :: int
  ctx_line :: nat
  ctx_cwd :: string
  ctx_bufname :: string
  ctx_event :: string
  ctx_start_length :: "int option"
  ctx_flags :: "flags_arg option"
  ctx_std :: "string \<rightharpoonup> string"
  ctx_clang2_pattern :: "rx option"
  ctx_buffer :: "string list"

text \<open>The patterns that \<open>get_complete_position\<close> stores in the context.\<close>

definition clang2_pattern_c :: rx where
  "clang2_pattern_c = Alt (Lit ''->'') (Chr (CHR ''.''))"

definition clang2_pattern_objc :: rx where
  "clang2_pattern_objc =
     Alts [Lit ''->'', Chr (CHR ''.''),
           Cls (\<lambda>c. c = CHR '':'' \<or> c = CHR ''@'' \<or> c = CHR ''[''),
           Seq (Cls (\<lambda>c. \<not> isspace c)) (Plus (Cls isspace))]"

text \<open>\<^verbatim>\<open>(?:\s+|(?:[\[\(:])\s*|@)$\<close>\<close>

definition scope_pattern :: rx where
  "scope_pattern =
     Seq (Alts [Plus (Cls isspace),
                Seq (Cls (\<lambda>c. c = CHR ''['' \<or> c = CHR ''('' \<or> c = CHR '':'')) (Star (Cls isspace)),
                Chr (CHR ''@'')])
         Eol"

text \<open>The reads of \<^verbatim>\<open>self.last\<close> with their defaults.\<close>

definition get_last_input :: "source \<Rightarrow> string" where
  "get_last_input st = (case last_ctx st of None \<Rightarrow> [] | Some l \<Rightarrow> last_input l)"

definition get_last_line :: "source \<Rightarrow> nat" where
  "get_last_line st = (case last_ctx st of None \<Rightarrow> 0 | Some l \<Rightarrow> last_line l)"

definition get_last_col :: "source \<Rightarrow> int" where
  "get_last_col st = (case last_ctx st of None \<Rightarrow> 0 | Some l \<Rightarrow> last_col l)"

definition get_last_completions :: "source \<Rightarrow> completion list" where
  "get_last_completions st = (case last_ctx st of None \<Rightarrow> [] | Some l \<Rightarrow> last_completions l)"

text \<open>The condition of line 458: the request is below the configured length.\<close>

definition too_short :: "request \<Rightarrow> bool" where
  "too_short ctx =
     (let min_length = (case ctx_start_length ctx of None \<Rightarrow> 2 | Some n \<Rightarrow> n);
          length_exemption = (case ctx_clang2_pattern ctx of
                                None \<Rightarrow> False
                              | Some pattern \<Rightarrow> rx_search (Seq pattern Eol) (ctx_input ctx))
      in \<not> length_exemption \<and> int (length (ctx_complete_str ctx)) < min_length)"

text \<open>The conditions of lines 472 and 485.\<close>

definition same_line :: "request \<Rightarrow> source \<Rightarrow> bool" where
  "same_line ctx st = (get_last_line st = ctx_line ctx)"

definition reuse_exact :: "request \<Rightarrow> source \<Rightarrow> bool" where
  "reuse_exact ctx st = (same_line ctx st \<and> get_last_col st = ctx_complete_position ctx)"

definition scope_pos :: "request \<Rightarrow> bool" where
  "scope_pos ctx = rx_search scope_pattern (ctx_input ctx)"

definition reuse_scope :: "request \<Rightarrow> source \<Rightarrow> bool" where
  "reuse_scope ctx st =
     (let scope_reuse = (ctx_filetype ctx \<notin> set [''objc'', ''objcpp'']
                         \<or> (ctx_input ctx \<noteq> get_last_input st
                             \<and> rstrip (ctx_input ctx) = rstrip (get_last_input st)))
      in scope_reuse \<and> same_line ctx st \<and> scope_pos ctx \<and> scope_completions st \<noteq> [])"

text \<open>The loop over the lines of the compiler's output, lines 530 to 547.\<close>

fun completion_loop :: "string list \<Rightarrow> string \<Rightarrow> completion list \<Rightarrow> completion list" where
  "completion_loop [] pattern completions =
     (if pattern \<noteq> [] then completions @ [parse_completion pattern] else completions)"
| "completion_loop (item # items) pattern completions =
     (if startswith item ''COMPLETION:'' then
        (let completions1 = (if pattern \<noteq> [] then completions @ [parse_completion pattern]
                             else completions);
             item1 = strip (drop 11 item)
         in if startswith item1 ''Pattern :'' then completion_loop items item1 completions1
            else completion_loop items [] (completions1 @ [parse_completion item1]))
      else if pattern \<noteq> [] then completion_loop items (pattern @ item) completions
      else completion_loop items pattern completions)"

text \<open>Lines 516 to 519: the flags of the three sources are concatenated.\<close>

definition merge_flags :: "string list \<Rightarrow> string list \<Rightarrow> string list option \<Rightarrow> string list" where
  "merge_flags default_flags flags db_flags =
     (let flags1 = default_flags @ flags
      in case db_flags of
           None \<Rightarrow> flags1
         | Some db \<Rightarrow> if db \<noteq> [] then db @ flags1 else flags1)"

text \<open>Lines 489 to 559: the request is computed by the compiler.\<close>

definition recompute :: "host \<Rightarrow> popen \<Rightarrow> request \<Rightarrow> source \<Rightarrow> (error + completion list) \<times> source" where
  "recompute h clang ctx st =
     (case get_user_flags h (ctx_cwd ctx) (ctx_flags ctx) st of
        (Inl e, st1) \<Rightarrow> (Inl e, st1)
      | (Inr flags, st1) \<Rightarrow>
          (let flags1 = (case darwin_version st1 of
                           None \<Rightarrow> flags
                         | Some version \<Rightarrow> apply_darwin_flags h (fsys st1) version flags);
               src = ctx_buffer ctx;
               code_flags = [''-code-completion-macros'',
                             ''-code-completion-patterns'',
                             ''-code-completion-at=-:'' @ show_nat (ctx_line ctx) @ '':''
                               @ show_int (ctx_complete_position ctx + 1)]
           in case map_of lang_names (ctx_filetype ctx) of
                None \<Rightarrow> (Inr [], st1)
              | Some lang \<Rightarrow>
                  (let std = (case ctx_std ctx (ctx_filetype ctx) of
                                None \<Rightarrow> map_of std_default (ctx_filetype ctx)
                              | Some s \<Rightarrow> if s \<noteq> [] then Some s
                                          else map_of std_default (ctx_filetype ctx));
                       cmd = [''-x'', lang];
                       std1 = ''-std='' @ (case std of None \<Rightarrow> ''None'' | Some s \<Rightarrow> s)
                   in case get_clang_flags h clang lang st1 of
                        (Inl e, st2) \<Rightarrow> (Inl e, st2)
                      | (Inr default_flags, st2) \<Rightarrow>
                          (case find_db_flags h (ctx_cwd ctx) (ctx_bufname ctx) st2 of
                             (Inl e, st3) \<Rightarrow> (Inl e, st3)
                           | (Inr db_flags, st3) \<Rightarrow>
                               (let flags2 = merge_flags default_flags flags1 db_flags;
                                    cmd1 = (if \<not> list_ex (\<lambda>x. startswith x ''-std='') flags2
                                            then cmd @ [std1] else cmd)
                                in case generate_pch h clang (ctx_cwd ctx) cmd1 flags2 st3 of
                                     (Inl e, st4) \<Rightarrow> (Inl e, st4)
                                   | (Inr (cmd2, flags3), st4) \<Rightarrow>
                                       (case call_clang clang src
                                               ([''-cc1'', ''-fsyntax-only''] @ cmd2 @ code_flags
                                                @ flags3 @ [''-O0'', ''-w''] @ [''-''])
                                               False st4 of
                                          (Inl e, st5) \<Rightarrow> (Inl e, st5)
                                        | (Inr lines, st5) \<Rightarrow>
                                            (let completions = completion_loop lines [] []
                                             in (Inr completions,
                                                 st5\<lparr>last_ctx := Some
                                                        \<lparr>last_input = ctx_input ctx,
                                                         last_line = ctx_line ctx,
                                                         last_col = ctx_complete_position ctx,
                                                         last_completions = completions\<rparr>,
                                                      scope_completions :=
                                                        (if scope_pos ctx then completions
                                                         else scope_completions st5)\<rparr>))))))))"

text \<open>
  Two parts of the command of the completion run, by name: the \<^verbatim>\<open>-std=\<close> argument of
  lines 508 to 514 and the three completion arguments of lines 497 to 502, as
  \<open>recompute\<close> builds them.
\<close>

definition std_arg :: "request \<Rightarrow> string" where
  "std_arg ctx =
     ''-std='' @ (case (case ctx_std ctx (ctx_filetype ctx) of
                          None \<Rightarrow> map_of std_default (ctx_filetype ctx)
                        | Some s \<Rightarrow> if s \<noteq> [] then Some s
                                    else map_of std_default (ctx_filetype ctx)) of
                    None \<Rightarrow> ''None''
                  | Some s \<Rightarrow> s)"

definition code_flags :: "request \<Rightarrow> string list" where
  "code_flags ctx =
     [''-code-completion-macros'', ''-code-completion-patterns'',
      ''-code-completion-at=-:'' @ show_nat (ctx_line ctx) @ '':''
        @ show_int (ctx_complete_position ctx + 1)]"

definition gather_candidates :: "host \<Rightarrow> popen \<Rightarrow> request \<Rightarrow> source
    \<Rightarrow> (error + completion list) \<times> source" where
  "gather_candidates h clang ctx st =
     (let st0 = st\<lparr>darwin_version := None\<rparr>
      in if too_short ctx then (Inr [], st0)
         else if reuse_exact ctx st0 then (Inr (get_last_completions st0), st0)
         else if reuse_scope ctx st0 then (Inr (scope_completions st0), st0)
         else recompute h clang ctx st0)"

section \<open>on_event\<close>


section \<open>Initial state and test doubles\<close>

text \<open>
  \<open>init_source\<close> is the state \<^verbatim>\<open>__init__\<close> leaves. \<open>empty_fs\<close> is a file system with
  nothing in it. On the hosts below \<^verbatim>\<open>clang\<close> is the only program that can be started.
  \<open>stubborn_clang\<close> is a compiler that rejects the argument \<^verbatim>\<open>-foo\<close> on every run,
  whatever it is given, while printing one completion line; \<open>quoting_clang\<close> is a
  compiler that rejects the argument \<^verbatim>\<open>-fx='y'\<close> on every run, in the words of clang;
  \<open>selfish_clang\<close> is one whose diagnostic names \<^verbatim>\<open>clang\<close>, and \<open>picky_clang\<close> one that
  names \<^verbatim>\<open>-foo\<close>, \<^verbatim>\<open>-bar\<close> and \<^verbatim>\<open>-baz\<close> on every run.
\<close>

definition empty_fs :: fs where
  "empty_fs = \<lparr>isfile = (\<lambda>p. False), isdir = (\<lambda>p. False), path_exists = (\<lambda>p. False),
               listdir = (\<lambda>p. Some []), read_text = (\<lambda>p. None), getmtime = (\<lambda>p. 0),
               glob = (\<lambda>p. []), walk = (\<lambda>p. DirTree [] [])\<rparr>"

definition init_source :: "fs \<Rightarrow> source" where
  "init_source f = \<lparr>bad_flags = [], clang_flags = Map.empty, db_files = Map.empty, last_ctx = None,
       scope_completions = [], user_flags = Map.empty, darwin_version = None, spawned = [],
       outputs = [], fsys = f\<rparr>"



definition stub_err :: string where
  "stub_err = ''error: unknown argument: '' @ [squote] @ ''-foo'' @ [squote]"

definition stubborn_clang :: popen where
  "stubborn_clang w cmd inp =
     (if cmd \<noteq> [] \<and> hd cmd = ''clang'' then Some (''COMPLETION: x : x'', stub_err, w) else None)"


definition triple_err :: string where
  "triple_err = ''error: unknown argument: '' @ [squote] @ ''-foo'' @ [squote] @ [newline]
     @ ''error: unknown argument: '' @ [squote] @ ''-bar'' @ [squote] @ [newline]
     @ ''error: unknown argument: '' @ [squote] @ ''-baz'' @ [squote]"

definition picky_clang :: popen where
  "picky_clang w cmd inp =
     (if cmd \<noteq> [] \<and> hd cmd = ''clang'' then Some (''COMPLETION: x : x'', triple_err, w) else None)"

text \<open>
  \<open>proj_fs\<close> is a project \<^verbatim>\<open>/proj\<close> under version control, with one source file in
  \<^verbatim>\<open>/proj/sub\<close> and no flag file anywhere. \<open>plain_host\<close> is a host whose
  \<^verbatim>\<open>shlex.split\<close> is stood in for by splitting at blanks.
\<close>

definition proj_fs :: fs where
  "proj_fs = \<lparr>isfile = (\<lambda>p. p = ''/proj/sub/a.c''),
              isdir = (\<lambda>p. p \<in> set [''/'', ''/proj'', ''/proj/.git'', ''/proj/sub'']),
              path_exists = (\<lambda>p. p \<in> set [''/'', ''/proj'', ''/proj/.git'', ''/proj/sub'', ''/proj/sub/a.c'']),
              listdir = map_of [(''/'', [''proj'']), (''/proj'', [''.git'', ''sub'']),
                                (''/proj/.git'', []), (''/proj/sub'', [''a.c''])],
              read_text = (\<lambda>p. if p = ''/proj/sub/a.c'' then Some ''int x;'' else None),
              getmtime = (\<lambda>p. 0),
              glob = (\<lambda>p. []),
              walk = (\<lambda>p. if p = ''/proj/sub'' then DirTree [] [''a.c'']
                           else if p = ''/proj''
                           then DirTree [(''.git'', DirTree [] []), (''sub'', DirTree [] [''a.c''])] []
                           else DirTree [] [])\<rparr>"

text \<open>\<open>flagged_fs\<close> is the same project with a flag file \<^verbatim>\<open>/proj/.clang\<close> at its root.\<close>

definition flagged_fs :: fs where
  "flagged_fs = proj_fs\<lparr>
     isfile := (\<lambda>p. p \<in> set [''/proj/sub/a.c'', ''/proj/.clang'']),
     path_exists := (\<lambda>p. p \<in> set [''/'', ''/proj'', ''/proj/.git'', ''/proj/.clang'', ''/proj/sub'',
                                   ''/proj/sub/a.c'']),
     listdir := map_of [(''/'', [''proj'']), (''/proj'', [''.clang'', ''.git'', ''sub'']),
                        (''/proj/.git'', []), (''/proj/sub'', [''a.c''])],
     read_text := (\<lambda>p. if p = ''/proj/sub/a.c'' then Some ''int x;''
                        else if p = ''/proj/.clang'' then Some ''-DPROJ'' else None)\<rparr>"

definition plain_host :: host where
  "plain_host = \<lparr>environ = [''HOME'' \<mapsto> ''/home/u''],
                 home = ''/home/u'',
                 tempdir = ''/tmp'',
                 darwin_sdk_paths = [''~/.local/share/SDKs''],
                 shlex_split = (\<lambda>s. Some (filter (\<lambda>w. w \<noteq> []) (split_on (CHR '' '') s))),
                 json_load = (\<lambda>s. None),
                 sha1_hexdigest = (\<lambda>s. ''da39a3ee'')\<rparr>"

text \<open>
  \<open>fake_clang\<close> behaves like a compiler that accepts every argument: asked for its
  verbose output it prints a command line with its default include directories (one of
  them twice) on the error stream, asked for a precompiled header it writes the file
  named after \<^verbatim>\<open>-o\<close>, and otherwise it prints two completions. \<open>req_c\<close> is a request in
  a C buffer of the project, with one host-supplied flag pair.
\<close>

definition verbose_err :: string where
  "verbose_err = ''clang version 3.8'' @ [newline]
     @ '' /usr/bin/clang -cc1 -internal-isystem /usr/include -internal-isystem /usr/include''
     @ '' -internal-externc-isystem /include -x c -''"

fun output_arg :: "string list \<Rightarrow> string option" where
  "output_arg [] = None"
| "output_arg [x] = None"
| "output_arg (x # y # ys) = (if x = ''-o'' then Some y else output_arg (y # ys))"

definition fake_clang :: popen where
  "fake_clang w cmd inp =
     (if cmd = [] \<or> hd cmd \<noteq> ''clang'' then None
      else if ''-v'' \<in> set cmd then Some ([], verbose_err, w)
      else if ''-emit-pch'' \<in> set cmd then
        (case output_arg cmd of
           None \<Rightarrow> Some ([], [], w)
         | Some p \<Rightarrow> Some ([], [], w\<lparr>path_exists := (path_exists w)(p := True),
                                       isfile := (isfile w)(p := True),
                                       getmtime := (getmtime w)(p := 1000)\<rparr>))
      else Some (''COMPLETION: foo : [#int#]foo'' @ [newline]
                   @ ''COMPLETION: bar : [#void#]bar(<#int x#>)'',
                 [], w))"

definition req_c :: request where
  "req_c = \<lparr>ctx_input = ''fo'', ctx_filetype = ''c'', ctx_complete_str = ''fo'',
            ctx_complete_position = 0, ctx_line = 1, ctx_cwd = ''/proj/sub'',
            ctx_bufname = ''a.c'', ctx_event = [], ctx_start_length = None,
            ctx_flags = Some (Tokens [''-internal-isystem'', ''/usr/include'']),
            ctx_std = Map.empty, ctx_clang2_pattern = Some clang2_pattern_c,
            ctx_buffer = [''int x;'', ''fo'']\<rparr>"

text \<open>
  \<open>db_fs\<close> is the project with a build database of two records in \<^verbatim>\<open>/proj/build\<close>;
  \<open>db_host\<close> parses the text of that file into \<open>db_records\<close>.
\<close>

definition db_records :: json where
  "db_records =
     JArr [JObj [(''directory'', JStr ''/proj/build''), (''file'', JStr ''/proj/src/a.c''),
                 (''command'', JStr ''cc -I../inc_a -DA=1 -c ../src/a.c'')],
           JObj [(''directory'', JStr ''/proj/build''), (''file'', JStr ''/proj/src/b.c''),
                 (''command'', JStr ''cc -I../inc_b -DB=1 -c ../src/b.c'')]]"

definition db_fs :: fs where
  "db_fs = proj_fs\<lparr>
     read_text := (\<lambda>p. if p = ''/proj/build/compile_commands.json'' then Some ''[two records]''
                        else None),
     walk := (\<lambda>p. if p = ''/proj''
                   then DirTree [(''.git'', DirTree [] [''compile_commands.json'']),
                                 (''build'', DirTree [] [''compile_commands.json'']),
                                 (''src'', DirTree [] [''a.c'', ''b.c''])] []
                   else DirTree [] [])\<rparr>"

definition db_host :: host where
  "db_host = plain_host\<lparr>json_load := (\<lambda>s. if s = ''[two records]'' then Some db_records else None)\<rparr>"





text \<open>
  \<open>req_more\<close> is \<open>req_c\<close> after one more character was typed, and \<open>req_short\<close> is
  \<open>req_c\<close> after one character was deleted: the same line and the same completion
  column, with a prefix of three characters and of one. \<open>req_dox\<close> is \<open>req_c\<close> in a buffer
  whose filetype is \<^verbatim>\<open>c.doxygen\<close>.
\<close>

definition req_more :: request where
  "req_more = req_c\<lparr>ctx_input := ''foo'', ctx_complete_str := ''foo'', ctx_buffer := [''int x;'', ''foo'']\<rparr>"

definition req_short :: request where
  "req_short = req_c\<lparr>ctx_input := ''f'', ctx_complete_str := ''f'', ctx_buffer := [''int x;'', ''f'']\<rparr>"

definition req_dox :: request where
  "req_dox = req_c\<lparr>ctx_filetype := ''c.doxygen''\<rparr>"

section \<open>Properties of call_clang\<close>

lemma rx_run_Lit: "rx_run (Lit s) t = (if startswith t s then [drop (length s) t] else [])"
proof (induction s arbitrary: t)
  case Nil
  then show ?case by (simp add: Lit_def startswith_def)
next
  case (Cons c s)
  have l: "Lit (c # s) = Seq (Chr c) (Lit s)" by (simp add: Lit_def)
  show ?case
  proof (cases t)
    case Nil
    then show ?thesis by (simp add: l startswith_def)
  next
    case (Cons x xs)
    then show ?thesis using Cons.IH[of xs] by (simp add: l startswith_def)
  qed
qed

lemma star_then_quote:
  "concat (map (\<lambda>r2. map (G r2) (rx_run (Chr q) r2)) (rx_run (Star (Cls (\<lambda>c. c \<noteq> q))) xs))
     = (case dropWhile (\<lambda>c. c \<noteq> q) xs of [] \<Rightarrow> [] | y # ys \<Rightarrow> [G (y # ys) ys])"
proof (induction xs)
  case Nil
  then show ?case by simp
next
  case (Cons x xs)
  then show ?case by (cases "x = q") simp_all
qed

lemma rx_group_no_key:
  "\<not> startswith s key \<Longrightarrow> rx_group (Lit key) g post s = None"
  by (simp add: rx_group_def rx_run_Lit)

lemma rx_group_unknown:
  assumes "a \<noteq> []" and "q \<notin> set a"
  shows "rx_group (Lit key) (Plus (Cls (\<lambda>c. c \<noteq> q))) (Chr q) (key @ a @ q # post) = Some (a, post)"
proof -
  obtain x a' where a: "a = x # a'" using assms(1) by (cases a) auto
  have x: "x \<noteq> q" and a': "q \<notin> set a'" using assms(2) a by auto
  define r1 where "r1 = a @ q # post"
  have d: "dropWhile (\<lambda>c. c \<noteq> q) (a' @ q # post) = q # post"
    using a' by (auto simp: dropWhile_append3)
  have pre: "rx_run (Lit key) (key @ r1) = [r1]"
    by (simp add: rx_run_Lit startswith_def)
  have g: "rx_run (Plus (Cls (\<lambda>c. c \<noteq> q))) r1 = rx_run (Star (Cls (\<lambda>c. c \<noteq> q))) (a' @ q # post)"
    using x by (simp add: Plus_def a r1_def del: rx_run.simps(7))
  have t: "take (length r1 - length (q # post)) r1 = a"
    by (simp add: r1_def)
  have "rx_group (Lit key) (Plus (Cls (\<lambda>c. c \<noteq> q))) (Chr q) (key @ r1)
      = (case concat (map (\<lambda>r2. map (\<lambda>r3. (take (length r1 - length r2) r1, r3)) (rx_run (Chr q) r2))
                          (rx_run (Star (Cls (\<lambda>c. c \<noteq> q))) (a' @ q # post))) of
           [] \<Rightarrow> None | m # _ \<Rightarrow> Some m)"
    unfolding rx_group_def pre by (simp add: g del: rx_run.simps)
  also have "\<dots> = Some (a, post)"
    unfolding star_then_quote d using t by simp
  finally show ?thesis by (simp add: r1_def)
qed

lemma finditer1_skip:
  "\<not> startswith (c # cs) key \<Longrightarrow> finditer1 (Lit key) g post (c # cs) = finditer1 (Lit key) g post cs"
  by (subst finditer1.simps) (simp add: rx_group_no_key)

lemma finditer1_hit:
  assumes "a \<noteq> []" and "q \<notin> set a" and "key \<noteq> []"
  shows "finditer1 (Lit key) (Plus (Cls (\<lambda>c. c \<noteq> q))) (Chr q) (key @ a @ q # post)
           = a # finditer1 (Lit key) (Plus (Cls (\<lambda>c. c \<noteq> q))) (Chr q) post"
  using assms by (subst finditer1.simps) (simp add: rx_group_unknown)

lemma startswith_decompose:
  "startswith s p \<Longrightarrow> s = p @ drop (length p) s"
  by (metis append_take_drop_id startswith_def)

lemma unknown_args_first_aux:
  assumes "a \<noteq> []" and "squote \<notin> set a"
  shows "find_sub unknown_key err = Some i \<Longrightarrow>
         startswith (drop (i + length unknown_key) err) (a @ [squote]) \<Longrightarrow>
         \<exists>rest. unknown_args err = a # rest"
proof (induction err arbitrary: i)
  case Nil
  then show ?case by (simp add: unknown_key_def split: if_splits)
next
  case (Cons c cs)
  show ?case
  proof (cases "startswith (c # cs) unknown_key")
    case True
    with Cons.prems(1) have i: "i = 0" by simp
    have e1: "c # cs = unknown_key @ drop (length unknown_key) (c # cs)"
      by (rule startswith_decompose[OF True])
    have e2: "drop (length unknown_key) (c # cs)
               = (a @ [squote]) @ drop (length (a @ [squote])) (drop (length unknown_key) (c # cs))"
      using Cons.prems(2) i by (intro startswith_decompose) simp
    obtain post where p: "c # cs = unknown_key @ a @ squote # post"
      using e1 e2 by (metis append.assoc append_Cons append_Nil)
    have "unknown_key \<noteq> []" by (simp add: unknown_key_def)
    then show ?thesis
      unfolding p unknown_args_def using finditer1_hit[OF assms] by blast
  next
    case False
    with Cons.prems(1) obtain j where j: "find_sub unknown_key cs = Some j" "i = Suc j"
      by auto
    have "startswith (drop (j + length unknown_key) cs) (a @ [squote])"
      using Cons.prems(2) j by simp
    from Cons.IH[OF j(1) this] obtain rest where "unknown_args cs = a # rest" by blast
    then show ?thesis
      using finditer1_skip[OF False] by (simp add: unknown_args_def)
  qed
qed

lemma unknown_args_first: "reports_unknown err a \<Longrightarrow> \<exists>rest. unknown_args err = a # rest"
  unfolding reports_unknown_def
  by (auto split: option.splits intro: unknown_args_first_aux)




lemma append_new_set: "set (foldl append_new acc items) = set acc \<union> set items"
  by (induction items arbitrary: acc) (auto simp: append_new_def)

lemma strip_unknown_mono: "set bad \<subseteq> set (snd (strip_unknown args cmd bad))"
  by (induction args cmd bad rule: strip_unknown.induct) (auto simp: Let_def append_new_def)


lemma strip_unknown_subseq: "subseq (fst (strip_unknown args cmd bad)) cmd"
proof (induction args cmd bad rule: strip_unknown.induct)
  case (1 cmd bad)
  then show ?case by simp
next
  case (2 arg args cmd bad)
  have "subseq (removeAll arg cmd) cmd"
    by (simp add: removeAll_filter_not_eq)
  with 2 show ?case
    by (auto simp: Let_def intro: subseq_order.trans)
qed


text \<open>One pass of the loop that starts a process which reports an unknown argument.\<close>

lemma retry_loop_step:
  assumes "cmd \<noteq> []"
      and "clang (fsys st) cmd (str_join [newline] src) = Some (out, err, fs')"
      and "contains ''unknown argument'' err"
  shows "retry_loop clang (Suc n) src cmd st so se =
           retry_loop clang n src (fst (strip_unknown (unknown_args err) cmd (bad_flags st)))
             (st\<lparr>spawned := spawned st @ [cmd], outputs := outputs st @ [(out, err)], fsys := fs',
                 bad_flags := snd (strip_unknown (unknown_args err) cmd (bad_flags st))\<rparr>) so err"
  using assms by (simp add: Let_def split_beta)

lemma retry_loop_bad_mono:
  "set (bad_flags st) \<subseteq> set (bad_flags (fst (retry_loop clang n src cmd st so se)))"
proof (induction n arbitrary: cmd st se)
  case 0
  then show ?case by simp
next
  case (Suc n)
  show ?case
  proof (cases "cmd = []")
    case True
    then show ?thesis by simp
  next
    case False
    show ?thesis
    proof (cases "clang (fsys st) cmd (str_join [newline] src)")
      case None
      then show ?thesis using False by simp
    next
      case (Some r)
      obtain out err fs' where r: "r = (out, err, fs')" by (cases r) auto
      show ?thesis
      proof (cases "contains ''unknown argument'' err")
        case True
        let ?bad = "snd (strip_unknown (unknown_args err) cmd (bad_flags st))"
        let ?st1 = "st\<lparr>spawned := spawned st @ [cmd], outputs := outputs st @ [(out, err)], fsys := fs',
                 bad_flags := ?bad\<rparr>"
        have "set (bad_flags st) \<subseteq> set ?bad" by (rule strip_unknown_mono)
        moreover have "set ?bad \<subseteq> set (bad_flags (fst (retry_loop clang n src
            (fst (strip_unknown (unknown_args err) cmd (bad_flags st))) ?st1 so err)))"
          using Suc.IH[of ?st1] by simp
        moreover have "retry_loop clang (Suc n) src cmd st so se = retry_loop clang n src
            (fst (strip_unknown (unknown_args err) cmd (bad_flags st))) ?st1 so err"
          using False Some r True by (simp add: Let_def split_beta)
        ultimately show ?thesis by auto
      next
        case False2: False
        then show ?thesis using False Some r by (simp add: Let_def)
      qed
    qed
  qed
qed

lemma retry_loop_log:
  "\<exists>new. spawned (fst (retry_loop clang n src cmd st so se)) = spawned st @ new
        \<and> (\<forall>c \<in> set new. subseq c cmd)"
proof (induction n arbitrary: cmd st se)
  case 0
  then show ?case by simp
next
  case (Suc n)
  show ?case
  proof (cases "cmd = []")
    case True
    then show ?thesis by simp
  next
    case False
    show ?thesis
    proof (cases "clang (fsys st) cmd (str_join [newline] src)")
      case None
      then show ?thesis using False by simp
    next
      case (Some r)
      obtain out err fs' where r: "r = (out, err, fs')" by (cases r) auto
      show ?thesis
      proof (cases "contains ''unknown argument'' err")
        case True
        let ?cmd' = "fst (strip_unknown (unknown_args err) cmd (bad_flags st))"
        let ?st1 = "st\<lparr>spawned := spawned st @ [cmd], outputs := outputs st @ [(out, err)], fsys := fs',
                 bad_flags := snd (strip_unknown (unknown_args err) cmd (bad_flags st))\<rparr>"
        have sub: "subseq ?cmd' cmd" by (rule strip_unknown_subseq)
        from Suc.IH[of ?cmd' ?st1 err]
        obtain new where n: "spawned (fst (retry_loop clang n src ?cmd' ?st1 so err))
            = (spawned st @ [cmd]) @ new" "\<forall>c \<in> set new. subseq c ?cmd'"
          by auto
        have "\<forall>c \<in> set (cmd # new). subseq c cmd"
          using n(2) sub by (auto intro: subseq_order.trans)
        moreover have "retry_loop clang (Suc n) src cmd st so se
            = retry_loop clang n src ?cmd' ?st1 so err"
          using False Some r True by (simp add: Let_def split_beta)
        ultimately show ?thesis
          using n(1) by (intro exI[of _ "cmd # new"]) simp
      next
        case False2: False
        then show ?thesis using False Some r
          by (intro exI[of _ "[cmd]"]) (simp add: Let_def)
      qed
    qed
  qed
qed



lemma call_clang_state:
  "snd (call_clang clang src cmd r st)
     = fst (retry_loop clang 5 src (''clang'' # filter (\<lambda>arg. arg \<notin> set (bad_flags st)) cmd) st [] [])"
  by (simp add: call_clang_def Let_def split: prod.splits sum.splits)

lemma call_clang_result:
  "fst (call_clang clang src cmd r st)
     = (case snd (retry_loop clang 5 src (''clang'' # filter (\<lambda>arg. arg \<notin> set (bad_flags st)) cmd) st [] []) of
          Inl e \<Rightarrow> Inl e
        | Inr (so, se) \<Rightarrow> Inr (if r then split_nl se else split_nl so))"
  by (simp add: call_clang_def Let_def split: prod.splits sum.splits)
















lemma contains_here: "contains u (u @ t)"
proof (cases "u @ t")
  case Nil
  then show ?thesis by simp
next
  case (Cons c cs)
  have "startswith (u @ t) u" by (simp add: startswith_def)
  with Cons show ?thesis by (metis contains.simps(2))
qed

lemma contains_suffix: "contains u t \<Longrightarrow> contains u (p @ t)"
  by (induction p) simp_all

lemma contains_middle: "contains u (p @ u @ t)"
  by (rule contains_suffix[OF contains_here])

lemma rx_run_Plus_Cls:
  "rx_run (Plus (Cls p)) s = (case s of [] \<Rightarrow> [] | x # xs \<Rightarrow> if p x then rx_run (Star (Cls p)) xs else [])"
  by (cases s) (simp_all add: Plus_def del: rx_run.simps(7))

lemma dropWhile_split: "dropWhile P xs = y # ys \<Longrightarrow> xs = takeWhile P xs @ y # ys"
  by (metis takeWhile_dropWhile_id)

lemma rx_group_shape:
  assumes "rx_group (Lit key) (Plus (Cls (\<lambda>c. c \<noteq> q))) (Chr q) s = Some (g, rest)"
  shows "s = key @ g @ q # rest"
proof -
  have sw: "startswith s key"
    using assms by (cases "startswith s key") (simp_all add: rx_group_no_key)
  define r1 where "r1 = drop (length key) s"
  have s: "s = key @ r1"
    unfolding r1_def by (rule startswith_decompose[OF sw])
  have pre: "rx_run (Lit key) s = [r1]"
    using sw by (simp add: rx_run_Lit r1_def)
  have e: "rx_group (Lit key) (Plus (Cls (\<lambda>c. c \<noteq> q))) (Chr q) s
      = (case concat (map (\<lambda>r2. map (\<lambda>r3. (take (length r1 - length r2) r1, r3)) (rx_run (Chr q) r2))
                          (rx_run (Plus (Cls (\<lambda>c. c \<noteq> q))) r1)) of
           [] \<Rightarrow> None | m # _ \<Rightarrow> Some m)"
    unfolding rx_group_def pre by (simp del: rx_run.simps)
  show ?thesis
  proof (cases r1)
    case Nil
    then show ?thesis using assms unfolding e rx_run_Plus_Cls by simp
  next
    case (Cons x xs)
    show ?thesis
    proof (cases "x \<noteq> q")
      case False
      then show ?thesis using assms Cons unfolding e rx_run_Plus_Cls by simp
    next
      case True
      have e1: "rx_run (Plus (Cls (\<lambda>c. c \<noteq> q))) r1 = rx_run (Star (Cls (\<lambda>c. c \<noteq> q))) xs"
        unfolding rx_run_Plus_Cls using True Cons by simp
      have e2: "rx_group (Lit key) (Plus (Cls (\<lambda>c. c \<noteq> q))) (Chr q) s
          = (case (case dropWhile (\<lambda>c. c \<noteq> q) xs of [] \<Rightarrow> []
                   | y # ys \<Rightarrow> [(take (length r1 - length (y # ys)) r1, ys)]) of
               [] \<Rightarrow> None | m # _ \<Rightarrow> Some m)"
        unfolding e e1 star_then_quote ..
      show ?thesis
      proof (cases "dropWhile (\<lambda>c. c \<noteq> q) xs")
        case Nil
        show ?thesis using assms unfolding e2 Nil by simp
      next
        case d: (Cons y ys)
        have y: "y = q" using d by (metis (mono_tags, lifting) hd_dropWhile list.distinct(1) list.sel(1))
        have xs: "xs = takeWhile (\<lambda>c. c \<noteq> q) xs @ y # ys"
          by (rule dropWhile_split[OF d])
        have g: "g = take (length r1 - length (y # ys)) r1" and r: "rest = ys"
          using assms unfolding e2 d by auto
        have "length r1 - length (y # ys) = length (x # takeWhile (\<lambda>c. c \<noteq> q) xs)"
          using Cons xs by (metis add_diff_cancel_right' append_Cons length_append)
        then have "g = x # takeWhile (\<lambda>c. c \<noteq> q) xs"
          unfolding g using Cons xs by (metis append_Cons append_eq_conv_conj)
        then have "r1 = g @ q # rest"
          using Cons xs y r by simp
        then show ?thesis using s by simp
      qed
    qed
  qed
qed

lemma finditer1_named:
  "x \<in> set (finditer1 (Lit key) (Plus (Cls (\<lambda>c. c \<noteq> q))) (Chr q) s) \<Longrightarrow> contains (key @ x @ [q]) s"
proof (induction "length s" arbitrary: s rule: less_induct)
  case less
  let ?f = "finditer1 (Lit key) (Plus (Cls (\<lambda>c. c \<noteq> q))) (Chr q)"
  show ?case
  proof (cases s)
    case Nil
    then show ?thesis using less.prems by (subst (asm) finditer1.simps) simp
  next
    case (Cons c cs)
    have tl: "x \<in> set (?f cs) \<Longrightarrow> contains (key @ x @ [q]) s"
      using less.hyps[of cs] Cons by simp
    show ?thesis
    proof (cases "rx_group (Lit key) (Plus (Cls (\<lambda>c. c \<noteq> q))) (Chr q) s")
      case None
      then have "?f s = ?f cs" using Cons by (subst finditer1.simps) simp
      then show ?thesis using less.prems tl by simp
    next
      case (Some m)
      obtain g rest where m: "m = (g, rest)" by (cases m) auto
      have sh: "s = key @ g @ q # rest"
        using Some m by (intro rx_group_shape) simp
      show ?thesis
      proof (cases "length rest < length s")
        case False
        then have "?f s = ?f cs" using Cons Some m by (subst finditer1.simps) simp
        then show ?thesis using less.prems tl by simp
      next
        case True
        then have "?f s = g # ?f rest" using Cons Some m by (subst finditer1.simps) simp
        with less.prems have "x = g \<or> x \<in> set (?f rest)" by auto
        then show ?thesis
        proof
          assume "x = g"
          then have "s = [] @ (key @ x @ [q]) @ rest" using sh by simp
          then show ?thesis using contains_middle[of "key @ x @ [q]" "[]" rest] by simp
        next
          assume "x \<in> set (?f rest)"
          then have "contains (key @ x @ [q]) rest" using less.hyps[OF True] by simp
          then have "contains (key @ x @ [q]) ((key @ g @ [q]) @ rest)"
            by (rule contains_suffix)
          then show ?thesis using sh by simp
        qed
      qed
    qed
  qed
qed

lemma unknown_args_named: "x \<in> set (unknown_args err) \<Longrightarrow> names_unknown err x"
  unfolding unknown_args_def names_unknown_def by (rule finditer1_named)

lemma reports_names: "reports_unknown err a \<Longrightarrow> names_unknown err a"
  using unknown_args_first[of err a] unknown_args_named[of a err] by auto









text \<open>
  C2 as it is worded fails. The compiler below names \<^verbatim>\<open>-foo\<close>, \<^verbatim>\<open>-bar\<close> and \<^verbatim>\<open>-baz\<close>
  on every attempt; \<^verbatim>\<open>-bar\<close> is not in the argument list of the first attempt, and
  four more attempts are made before the call returns. The \<^verbatim>\<open>break\<close> leaves the
  \<^verbatim>\<open>for\<close> loop over the diagnostics, not the \<^verbatim>\<open>while\<close> loop.
\<close>

theorem absent_token_counterexample:
  "map_option (\<lambda>(out, err, w). unknown_args err) (picky_clang empty_fs [''clang'', ''-foo'', ''-baz'', ''-w''] [])
     = Some [''-foo'', ''-bar'', ''-baz'']
   \<and> ''-bar'' \<notin> set [''clang'', ''-foo'', ''-baz'', ''-w'']
   \<and> spawned (snd (call_clang picky_clang [] [''-foo'', ''-baz'', ''-w''] False (init_source empty_fs)))
        = [[''clang'', ''-foo'', ''-baz'', ''-w''], [''clang'', ''-baz'', ''-w''], [''clang'', ''-baz'', ''-w''],
           [''clang'', ''-baz'', ''-w''], [''clang'', ''-baz'', ''-w'']]
   \<and> fst (call_clang picky_clang [] [''-foo'', ''-baz'', ''-w''] False (init_source empty_fs)) = Inr [[]]"
  by code_simp

lemma strip_unknown_present:
  "distinct pre \<Longrightarrow> set pre \<subseteq> set cmd \<Longrightarrow> a \<notin> set cmd \<or> a \<in> set pre \<Longrightarrow>
   strip_unknown (pre @ a # post) cmd bad
     = (filter (\<lambda>x. x \<notin> set pre) cmd, foldl append_new bad (pre @ [a]))"
proof (induction pre arbitrary: cmd bad)
  case Nil
  then show ?case by (simp add: Let_def)
next
  case (Cons p ps)
  have d: "distinct ps" and s: "set ps \<subseteq> set (removeAll p cmd)"
    and h: "a \<notin> set (removeAll p cmd) \<or> a \<in> set ps"
    using Cons.prems by auto
  have f: "filter (\<lambda>x. x \<notin> set ps) (removeAll p cmd) = filter (\<lambda>x. x \<notin> set (p # ps)) cmd"
    by (induction cmd) auto
  have "p \<in> set cmd" using Cons.prems(2) by simp
  then show ?case
    using Cons.IH[OF d s h, of "append_new bad p"] f by (simp add: Let_def)
qed

lemma retry_loop_first:
  assumes "cmd \<noteq> []" and "clang (fsys st) cmd (str_join [newline] src) = Some (out, err, fs')"
  shows "\<exists>more. spawned (fst (retry_loop clang (Suc n) src cmd st so se)) = spawned st @ cmd # more"
proof (cases "contains ''unknown argument'' err")
  case True
  let ?cmd' = "fst (strip_unknown (unknown_args err) cmd (bad_flags st))"
  let ?st1 = "st\<lparr>spawned := spawned st @ [cmd], outputs := outputs st @ [(out, err)], fsys := fs',
                 bad_flags := snd (strip_unknown (unknown_args err) cmd (bad_flags st))\<rparr>"
  have step: "retry_loop clang (Suc n) src cmd st so se = retry_loop clang n src ?cmd' ?st1 so err"
    using assms True by (simp add: Let_def split_beta)
  obtain new where "spawned (fst (retry_loop clang n src ?cmd' ?st1 so err)) = spawned ?st1 @ new"
    using retry_loop_log[of clang n src ?cmd' ?st1 so err] by auto
  then show ?thesis unfolding step by simp
next
  case False
  then show ?thesis using assms by (simp add: Let_def)
qed

text \<open>
  C2, amended. Let the error stream of an attempt name the tokens \<open>pre\<close>, all of them in
  the working argument list, and then \<open>a\<close>, which is not in it (it never was, or it is
  one of \<open>pre\<close> and has just been removed). Then the scan of that error stream ends at
  \<open>a\<close>: the tokens \<open>pre\<close> are removed, \<open>pre\<close> and \<open>a\<close> are remembered in \<open>bad_flags\<close>, the
  tokens named after \<open>a\<close> are neither remembered nor removed, and the loop goes on with
  one attempt fewer. While attempts remain, the next attempt is made with the
  remaining arguments, if a process can be started with them.
\<close>

theorem absent_token_ends_scan_only:
  assumes "cmd \<noteq> []"
      and "clang (fsys st) cmd (str_join [newline] src) = Some (out, err, fs')"
      and "contains ''unknown argument'' err"
      and "unknown_args err = pre @ a # post"
      and "distinct pre" and "set pre \<subseteq> set cmd"
      and "a \<notin> set cmd \<or> a \<in> set pre"
  shows "retry_loop clang (Suc n) src cmd st so se =
           retry_loop clang n src (filter (\<lambda>x. x \<notin> set pre) cmd)
             (st\<lparr>spawned := spawned st @ [cmd], outputs := outputs st @ [(out, err)], fsys := fs',
                 bad_flags := foldl append_new (bad_flags st) (pre @ [a])\<rparr>) so err
       \<and> a \<in> set (bad_flags (fst (retry_loop clang (Suc n) src cmd st so se)))
       \<and> (\<forall>out2 err2 fs2.
            0 < n \<and> filter (\<lambda>x. x \<notin> set pre) cmd \<noteq> []
            \<and> clang fs' (filter (\<lambda>x. x \<notin> set pre) cmd) (str_join [newline] src) = Some (out2, err2, fs2)
            \<longrightarrow> take 2 (drop (length (spawned st))
                          (spawned (fst (retry_loop clang (Suc n) src cmd st so se))))
                 = [cmd, filter (\<lambda>x. x \<notin> set pre) cmd])"
proof -
  let ?cmd' = "filter (\<lambda>x. x \<notin> set pre) cmd"
  let ?st1 = "st\<lparr>spawned := spawned st @ [cmd], outputs := outputs st @ [(out, err)], fsys := fs',
                 bad_flags := foldl append_new (bad_flags st) (pre @ [a])\<rparr>"
  have eq: "strip_unknown (unknown_args err) cmd (bad_flags st)
      = (?cmd', foldl append_new (bad_flags st) (pre @ [a]))"
    unfolding assms(4) by (rule strip_unknown_present[OF assms(5,6,7)])
  have step: "retry_loop clang (Suc n) src cmd st so se = retry_loop clang n src ?cmd' ?st1 so err"
    using assms(1,2,3) eq by (simp add: Let_def)
  have "a \<in> set (foldl append_new (bad_flags st) (pre @ [a]))"
    unfolding append_new_set by simp
  then have "a \<in> set (bad_flags ?st1)"
    by (simp del: foldl_append)
  then have rec: "a \<in> set (bad_flags (fst (retry_loop clang (Suc n) src cmd st so se)))"
    unfolding step using retry_loop_bad_mono[of ?st1 clang n src ?cmd' so err] by blast
  have next_attempt: "\<forall>out2 err2 fs2.
            0 < n \<and> ?cmd' \<noteq> [] \<and> clang fs' ?cmd' (str_join [newline] src) = Some (out2, err2, fs2)
            \<longrightarrow> take 2 (drop (length (spawned st))
                          (spawned (fst (retry_loop clang (Suc n) src cmd st so se))))
                 = [cmd, ?cmd']"
  proof (intro allI impI)
    fix out2 err2 fs2
    assume h: "0 < n \<and> ?cmd' \<noteq> [] \<and> clang fs' ?cmd' (str_join [newline] src) = Some (out2, err2, fs2)"
    then obtain m where m: "n = Suc m" by (cases n) auto
    have c2: "clang (fsys ?st1) ?cmd' (str_join [newline] src) = Some (out2, err2, fs2)"
      using h by simp
    obtain more where "spawned (fst (retry_loop clang (Suc m) src ?cmd' ?st1 so err))
        = spawned ?st1 @ ?cmd' # more"
      using retry_loop_first[where clang = clang and st = ?st1 and cmd = ?cmd' and src = src
              and out = out2 and err = err2 and fs' = fs2 and n = m and so = so and se = err] h c2
      by blast
    then have "spawned (fst (retry_loop clang (Suc n) src cmd st so se))
        = spawned st @ cmd # ?cmd' # more"
      unfolding step unfolding m by (simp del: retry_loop.simps)
    then show "take 2 (drop (length (spawned st))
                          (spawned (fst (retry_loop clang (Suc n) src cmd st so se))))
                 = [cmd, ?cmd']"
      by simp
  qed
  from step rec next_attempt show ?thesis by blast
qed

lemma picky_args: "unknown_args triple_err = [''-foo''] @ ''-bar'' # [''-baz'']"
  by code_simp

lemma picky_contains: "contains ''unknown argument'' triple_err"
  by code_simp

lemma picky_run:
  "spawned (fst (retry_loop picky_clang (Suc 4) [] [''clang'', ''-foo'', ''-baz'', ''-w'']
                   (init_source empty_fs) [] []))
     = [[''clang'', ''-foo'', ''-baz'', ''-w''], [''clang'', ''-baz'', ''-w''], [''clang'', ''-baz'', ''-w''],
        [''clang'', ''-baz'', ''-w''], [''clang'', ''-baz'', ''-w'']]
   \<and> bad_flags (fst (retry_loop picky_clang (Suc 4) [] [''clang'', ''-foo'', ''-baz'', ''-w'']
                   (init_source empty_fs) [] []))
     = [''-foo'', ''-bar'']"
  by code_simp

theorem absent_token_ends_scan_only_witness:
  "unknown_args triple_err = [''-foo''] @ ''-bar'' # [''-baz'']
   \<and> contains ''unknown argument'' triple_err
   \<and> ''-bar'' \<notin> set [''clang'', ''-foo'', ''-baz'', ''-w'']
   \<and> ''-bar'' \<in> set (bad_flags (fst (retry_loop picky_clang (Suc 4) [] [''clang'', ''-foo'', ''-baz'', ''-w'']
                                      (init_source empty_fs) [] [])))
   \<and> take 2 (spawned (fst (retry_loop picky_clang (Suc 4) [] [''clang'', ''-foo'', ''-baz'', ''-w'']
                              (init_source empty_fs) [] [])))
       = [[''clang'', ''-foo'', ''-baz'', ''-w''], [''clang'', ''-baz'', ''-w'']]
   \<and> bad_flags (fst (retry_loop picky_clang (Suc 4) [] [''clang'', ''-foo'', ''-baz'', ''-w'']
                       (init_source empty_fs) [] []))
       = [''-foo'', ''-bar'']"
proof -
  have c: "picky_clang (fsys (init_source empty_fs)) [''clang'', ''-foo'', ''-baz'', ''-w''] (str_join [newline] [])
      = Some (''COMPLETION: x : x'', triple_err, empty_fs)"
    by (simp add: picky_clang_def init_source_def)
  have c2: "picky_clang empty_fs (filter (\<lambda>x. x \<notin> set [''-foo'']) [''clang'', ''-foo'', ''-baz'', ''-w''])
              (str_join [newline] []) = Some (''COMPLETION: x : x'', triple_err, empty_fs)"
    by (simp add: picky_clang_def)
  have m: "''-bar'' \<notin> set [''clang'', ''-foo'', ''-baz'', ''-w''] \<or> ''-bar'' \<in> set [''-foo'']"
    by simp
  have pre: "[''clang'', ''-foo'', ''-baz'', ''-w''] \<noteq> []" "distinct [''-foo'']"
      "set [''-foo''] \<subseteq> set [''clang'', ''-foo'', ''-baz'', ''-w'']"
    by simp_all
  note t = absent_token_ends_scan_only[where clang = picky_clang and st = "init_source empty_fs"
      and cmd = "[''clang'', ''-foo'', ''-baz'', ''-w'']" and src = "[]" and out = "''COMPLETION: x : x''"
      and err = triple_err and fs' = empty_fs and pre = "[''-foo'']"
      and a = "''-bar''" and post = "[''-baz'']" and n = 4 and so = "[]" and se = "[]",
      OF pre(1) c picky_contains picky_args pre(2,3) m]
  note t2 = t[THEN conjunct2, THEN conjunct1]
  note t3 = t[THEN conjunct2, THEN conjunct2, rule_format, of "''COMPLETION: x : x''" triple_err empty_fs]
  have "take 2 (drop (length (spawned (init_source empty_fs)))
         (spawned (fst (retry_loop picky_clang (Suc 4) [] [''clang'', ''-foo'', ''-baz'', ''-w'']
                              (init_source empty_fs) [] []))))
       = [[''clang'', ''-foo'', ''-baz'', ''-w''],
          filter (\<lambda>x. x \<notin> set [''-foo'']) [''clang'', ''-foo'', ''-baz'', ''-w'']]"
    by (rule t3) (simp add: picky_clang_def)
  then have "take 2 (spawned (fst (retry_loop picky_clang (Suc 4) [] [''clang'', ''-foo'', ''-baz'', ''-w'']
                              (init_source empty_fs) [] [])))
       = [[''clang'', ''-foo'', ''-baz'', ''-w''], [''clang'', ''-baz'', ''-w'']]"
    by (simp add: init_source_def del: retry_loop.simps)
  then show ?thesis using t2 picky_args picky_contains picky_run by (simp del: retry_loop.simps)
qed

text \<open>The streams of the processes a call has started, when all of them were rejected.\<close>

lemma retry_loop_outputs:
  "\<exists>outs. outputs (fst (retry_loop clang n src cmd st so se)) = outputs st @ outs \<and> length outs \<le> n"
proof (induction n arbitrary: cmd st se)
  case 0
  then show ?case by simp
next
  case (Suc n)
  show ?case
  proof (cases "cmd = []")
    case True
    then show ?thesis by simp
  next
    case False
    show ?thesis
    proof (cases "clang (fsys st) cmd (str_join [newline] src)")
      case None
      then show ?thesis using False by simp
    next
      case (Some r)
      obtain out err fs' where r: "r = (out, err, fs')" by (cases r) auto
      show ?thesis
      proof (cases "contains ''unknown argument'' err")
        case True
        let ?cmd' = "fst (strip_unknown (unknown_args err) cmd (bad_flags st))"
        let ?st1 = "st\<lparr>spawned := spawned st @ [cmd], outputs := outputs st @ [(out, err)], fsys := fs',
                 bad_flags := snd (strip_unknown (unknown_args err) cmd (bad_flags st))\<rparr>"
        have step: "retry_loop clang (Suc n) src cmd st so se = retry_loop clang n src ?cmd' ?st1 so err"
          using False Some r True by (simp add: Let_def split_beta)
        from Suc.IH[of ?cmd' ?st1 err] obtain outs where
          "outputs (fst (retry_loop clang n src ?cmd' ?st1 so err)) = outputs ?st1 @ outs" "length outs \<le> n"
          by blast
        then show ?thesis
          unfolding step by (intro exI[of _ "(out, err) # outs"]) simp
      next
        case F: False
        then show ?thesis using False Some r
          by (intro exI[of _ "[(out, err)]"]) (simp add: Let_def)
      qed
    qed
  qed
qed

lemma retry_loop_exhausted:
  "outputs (fst (retry_loop clang n src cmd st so se)) = outputs st @ outs \<Longrightarrow> length outs = n \<Longrightarrow>
   \<forall>p \<in> set outs. contains ''unknown argument'' (snd p) \<Longrightarrow>
   snd (retry_loop clang n src cmd st so se) = Inr (so, if n = 0 then se else snd (last outs))"
proof (induction n arbitrary: cmd st se outs)
  case 0
  then show ?case by simp
next
  case (Suc n)
  have ne: "cmd \<noteq> []"
    using Suc.prems(1,2) by (cases "cmd = []") auto
  obtain out err fs' where c: "clang (fsys st) cmd (str_join [newline] src) = Some (out, err, fs')"
    using Suc.prems(1,2) ne by (cases "clang (fsys st) cmd (str_join [newline] src)") auto
  have u: "contains ''unknown argument'' err"
  proof (rule ccontr)
    assume n: "\<not> contains ''unknown argument'' err"
    then have "outputs (fst (retry_loop clang (Suc n) src cmd st so se)) = outputs st @ [(out, err)]"
      using ne c by (simp add: Let_def)
    with Suc.prems(1) have "outs = [(out, err)]" by simp
    with Suc.prems(3) n show False by simp
  qed
  let ?cmd' = "fst (strip_unknown (unknown_args err) cmd (bad_flags st))"
  let ?st1 = "st\<lparr>spawned := spawned st @ [cmd], outputs := outputs st @ [(out, err)], fsys := fs',
                 bad_flags := snd (strip_unknown (unknown_args err) cmd (bad_flags st))\<rparr>"
  have step: "retry_loop clang (Suc n) src cmd st so se = retry_loop clang n src ?cmd' ?st1 so err"
    using ne c u by (simp add: Let_def split_beta)
  obtain outs' where o': "outputs (fst (retry_loop clang n src ?cmd' ?st1 so err)) = outputs ?st1 @ outs'"
    using retry_loop_outputs[of clang n src ?cmd' ?st1 so err] by blast
  with Suc.prems(1) have outs: "outs = (out, err) # outs'"
    unfolding step by simp
  have l: "length outs' = n" using Suc.prems(2) outs by simp
  have a: "\<forall>p \<in> set outs'. contains ''unknown argument'' (snd p)"
    using Suc.prems(3) outs by simp
  have "snd (retry_loop clang n src ?cmd' ?st1 so err) = Inr (so, if n = 0 then err else snd (last outs'))"
    by (rule Suc.IH[OF o' l a])
  then show ?case
    unfolding step using outs l by auto
qed

text \<open>
  C3, amended. When a call has started 5 processes and the error stream of each of
  them reports an unknown argument, \<open>call_clang\<close> returns the lines of the error
  stream of the last of them if the error stream was asked for, and the single empty
  line that \<^verbatim>\<open>''.split('\n')\<close> gives if the standard output was asked for: the standard
  output of a rejected attempt is never kept.
\<close>

theorem call_clang_exhausted_output:
  assumes "outputs (snd (call_clang clang src cmd r st)) = outputs st @ outs"
      and "length outs = 5"
      and "\<forall>p \<in> set outs. contains ''unknown argument'' (snd p)"
  shows "fst (call_clang clang src cmd r st)
           = Inr (if r then split_nl (snd (last outs)) else [[]])"
proof -
  let ?cmd0 = "''clang'' # filter (\<lambda>arg. arg \<notin> set (bad_flags st)) cmd"
  have o: "outputs (fst (retry_loop clang 5 src ?cmd0 st [] [])) = outputs st @ outs"
    using assms(1) unfolding call_clang_state .
  have "snd (retry_loop clang 5 src ?cmd0 st [] [])
      = Inr ([], if (5::nat) = 0 then [] else snd (last outs))"
    by (rule retry_loop_exhausted[OF o assms(2,3)])
  then show ?thesis
    unfolding call_clang_result by simp
qed

lemma stub_outputs:
  "outputs (snd (call_clang stubborn_clang [] [''-foo'', ''-w''] True (init_source empty_fs)))
     = outputs (init_source empty_fs) @ replicate 5 (''COMPLETION: x : x'', stub_err)"
  by code_simp

lemma stub_contains: "contains ''unknown argument'' stub_err"
  by code_simp

theorem call_clang_exhausted_output_witness:
  "outputs (snd (call_clang stubborn_clang [] [''-foo'', ''-w''] True (init_source empty_fs)))
     = outputs (init_source empty_fs) @ replicate 5 (''COMPLETION: x : x'', stub_err)
   \<and> contains ''unknown argument'' stub_err
   \<and> fst (call_clang stubborn_clang [] [''-foo'', ''-w''] True (init_source empty_fs))
       = Inr [stub_err]"
proof -
  have a: "\<forall>p \<in> set (replicate 5 (''COMPLETION: x : x'', stub_err)). contains ''unknown argument'' (snd p)"
    by (simp add: stub_contains)
  have s: "split_nl stub_err = [stub_err]"
    by code_simp
  from call_clang_exhausted_output[OF stub_outputs _ a]
  have "fst (call_clang stubborn_clang [] [''-foo'', ''-w''] True (init_source empty_fs))
       = Inr (split_nl (snd (last (replicate 5 (''COMPLETION: x : x'', stub_err)))))"
    by simp
  then show ?thesis using stub_outputs stub_contains s by simp
qed

text \<open>
  C3 as it is worded fails: each of the 5 attempts of this call, the last one too,
  wrote the line \<^verbatim>\<open>COMPLETION: x : x\<close> to its standard output and reported an unknown
  argument, and the call, asked for the standard output, returns \<^verbatim>\<open>['']\<close>.
\<close>

theorem exhausted_output_counterexample:
  "map (\<lambda>p. (split_nl (fst p), contains ''unknown argument'' (snd p)))
       (outputs (snd (call_clang stubborn_clang [] [''-foo'', ''-w''] False (init_source empty_fs))))
     = replicate 5 ([''COMPLETION: x : x''], True)
   \<and> fst (call_clang stubborn_clang [] [''-foo'', ''-w''] False (init_source empty_fs)) = Inr [[]]"
  by code_simp

section \<open>Properties of get_user_flags\<close>

text \<open>
  C5 fails on the code, on the example the claim gives. With \<^verbatim>\<open>/proj/.git\<close> present
  and no flag file anywhere, the search from \<^verbatim>\<open>/proj/sub\<close> examines \<^verbatim>\<open>/proj/sub\<close> only:
  its children hold no marker, and the loop is left there, under the comment
  \<^verbatim>\<open>We're at an apparent project root\<close>; \<^verbatim>\<open>/proj\<close> is never examined. The flags of
  the host are returned, and they are returned as well when the project has a flag
  file \<^verbatim>\<open>/proj/.clang\<close>, which the search from \<^verbatim>\<open>/proj/sub\<close> never reaches. A search
  from \<^verbatim>\<open>/proj\<close> itself, whose children do hold a marker, goes on above the project, to
  \<^verbatim>\<open>/\<close>: the test of line 237 is the opposite of what its comment says.
\<close>

theorem walk_stops_below_project_root:
  "listdir proj_fs ''/proj'' = Some [''.git'', ''sub'']
   \<and> listdir proj_fs ''/proj/sub'' = Some [''a.c'']
   \<and> \<not> isfile proj_fs ''/proj/.clang'' \<and> \<not> isfile proj_fs ''/proj/sub/.clang''
   \<and> walk_up proj_fs ''/proj/sub'' [] = ([''/proj/sub''], Inr None)
   \<and> fst (get_user_flags plain_host ''/proj/sub'' (Some (Tokens [''-Wall''])) (init_source proj_fs))
        = Inr [''-Wall'']
   \<and> isfile flagged_fs ''/proj/.clang'' \<and> read_text flagged_fs ''/proj/.clang'' = Some ''-DPROJ''
   \<and> walk_up flagged_fs ''/proj/sub'' [] = ([''/proj/sub''], Inr None)
   \<and> fst (get_user_flags plain_host ''/proj/sub'' (Some (Tokens [''-Wall''])) (init_source flagged_fs))
        = Inr [''-Wall'']
   \<and> walk_up proj_fs ''/proj'' [] = ([''/proj'', ''/''], Inr None)"
  by code_simp

section \<open>Properties of clean_flags\<close>

lemma clean_loop_map:
  "fst (clean_loop h flags out dv)
     = out @ map (expand_home h)
               (filter (\<lambda>f. \<not> startswith f ''-darwin='') (map (expandvars (environ h)) flags))"
  by (induction flags arbitrary: out dv) (simp_all add: Let_def)

lemma expand_home_other:
  "\<not> startswith f ''~'' \<Longrightarrow> \<not> rx_match idf_flag_pattern f \<Longrightarrow> expand_home h f = f"
  by (simp add: expand_home_def)

text \<open>
  C8, amended. \<open>clean_flags\<close>, given a list of tokens or a string that
  \<^verbatim>\<open>shlex.split\<close> turns into one, expands environment variables in every token. A token
  that then starts with \<^verbatim>\<open>-darwin=\<close> is dropped. In the others, every \<^verbatim>\<open>~\<close> is
  replaced by the home directory when the token starts with \<^verbatim>\<open>~\<close>, or contains
  \<^verbatim>\<open>~\<close> and starts with \<^verbatim>\<open>-I\<close>, \<^verbatim>\<open>-D\<close>, \<^verbatim>\<open>-F\<close> or a flag of the path-bearing
  grammar; a token that neither starts with \<^verbatim>\<open>~\<close> nor matches the grammar is passed
  on with its variables expanded and nothing else changed.
\<close>

theorem clean_flags_expansion:
  "fst (clean_flags h (Tokens flags) st)
     = Inr (map (expand_home h)
              (filter (\<lambda>f. \<not> startswith f ''-darwin='') (map (expandvars (environ h)) flags)))
   \<and> (shlex_split h s = Some flags \<longrightarrow>
        fst (clean_flags h (Text s) st)
          = Inr (map (expand_home h)
                   (filter (\<lambda>f. \<not> startswith f ''-darwin='') (map (expandvars (environ h)) flags))))
   \<and> (\<forall>f. \<not> startswith f ''~'' \<and> \<not> rx_match idf_flag_pattern f \<longrightarrow> expand_home h f = f)
   \<and> (\<forall>f. startswith f ''~'' \<or> (contains ''~'' f \<and> rx_match idf_flag_pattern f)
          \<longrightarrow> expand_home h f = replace_tilde (home h) f)"
proof (intro conjI allI impI)
  have t: "fst (clean_tokens h flags st)
     = map (expand_home h)
           (filter (\<lambda>f. \<not> startswith f ''-darwin='') (map (expandvars (environ h)) flags))"
    using clean_loop_map[of h flags "[]" "darwin_version st"]
    by (simp add: clean_tokens_def split_beta)
  show "fst (clean_flags h (Tokens flags) st)
     = Inr (map (expand_home h)
              (filter (\<lambda>f. \<not> startswith f ''-darwin='') (map (expandvars (environ h)) flags)))"
    using t by (simp add: clean_flags_def split_beta)
  assume "shlex_split h s = Some flags"
  then show "fst (clean_flags h (Text s) st)
          = Inr (map (expand_home h)
                   (filter (\<lambda>f. \<not> startswith f ''-darwin='') (map (expandvars (environ h)) flags)))"
    using t by (simp add: clean_flags_def split_beta)
next
  fix f assume "\<not> startswith f ''~'' \<and> \<not> rx_match idf_flag_pattern f"
  then show "expand_home h f = f" by (simp add: expand_home_def)
next
  fix f assume "startswith f ''~'' \<or> (contains ''~'' f \<and> rx_match idf_flag_pattern f)"
  then show "expand_home h f = replace_tilde (home h) f" by (simp add: expand_home_def)
qed

lemma sample_expanded:
  "map (expandvars (environ plain_host)) [''-L$HOME/lib'', ''-DX=~'', ''-O~'', ''-darwin=10.2'', ''~/inc'']
     = [''-L/home/u/lib'', ''-DX=~'', ''-O~'', ''-darwin=10.2'', ''~/inc'']"
  by code_simp

lemma sample_match:
  "\<not> rx_match idf_flag_pattern ''-L$HOME/lib'' \<and> \<not> rx_match idf_flag_pattern ''-L/home/u/lib''
   \<and> \<not> rx_match idf_flag_pattern ''~/inc'' \<and> \<not> rx_match idf_flag_pattern ''-O~''
   \<and> rx_match idf_flag_pattern ''-DX=~''"
  by code_simp

lemma sample_cleaned:
  "map (expand_home plain_host)
       (filter (\<lambda>f. \<not> startswith f ''-darwin='')
          (map (expandvars (environ plain_host)) [''-L$HOME/lib'', ''-DX=~'', ''-O~'', ''-darwin=10.2'', ''~/inc'']))
     = [''-L/home/u/lib'', ''-DX=/home/u'', ''-O~'', ''/home/u/inc'']"
  by code_simp

lemma sample_split:
  "shlex_split plain_host ''-L$HOME/lib -DX=~ -O~ -darwin=10.2 ~/inc''
     = Some [''-L$HOME/lib'', ''-DX=~'', ''-O~'', ''-darwin=10.2'', ''~/inc'']"
  by code_simp

theorem clean_flags_expansion_witness:
  "fst (clean_flags plain_host (Tokens [''-L$HOME/lib'', ''-DX=~'', ''-O~'', ''-darwin=10.2'', ''~/inc''])
          (init_source empty_fs))
     = Inr [''-L/home/u/lib'', ''-DX=/home/u'', ''-O~'', ''/home/u/inc'']
   \<and> fst (clean_flags plain_host (Text ''-L$HOME/lib -DX=~ -O~ -darwin=10.2 ~/inc'') (init_source empty_fs))
     = Inr [''-L/home/u/lib'', ''-DX=/home/u'', ''-O~'', ''/home/u/inc'']
   \<and> \<not> startswith ''-O~'' ''~'' \<and> \<not> rx_match idf_flag_pattern ''-O~''
   \<and> expand_home plain_host ''-O~'' = ''-O~''
   \<and> contains ''~'' ''-DX=~'' \<and> rx_match idf_flag_pattern ''-DX=~''
   \<and> expand_home plain_host ''-DX=~'' = replace_tilde (home plain_host) ''-DX=~''"
proof -
  note t = clean_flags_expansion[of plain_host
      "[''-L$HOME/lib'', ''-DX=~'', ''-O~'', ''-darwin=10.2'', ''~/inc'']" "init_source empty_fs"
      "''-L$HOME/lib -DX=~ -O~ -darwin=10.2 ~/inc''"]
  have a: "\<not> startswith ''-O~'' ''~''" by (simp add: startswith_def)
  have b: "\<not> rx_match idf_flag_pattern ''-O~''" using sample_match by blast
  have c: "contains ''~'' ''-DX=~''" by (simp add: startswith_def)
  have d: "rx_match idf_flag_pattern ''-DX=~''" using sample_match by blast
  from t a b have e: "expand_home plain_host ''-O~'' = ''-O~''" by blast
  from t c d have f: "expand_home plain_host ''-DX=~'' = replace_tilde (home plain_host) ''-DX=~''" by blast
  from t have g: "fst (clean_flags plain_host (Tokens [''-L$HOME/lib'', ''-DX=~'', ''-O~'', ''-darwin=10.2'', ''~/inc''])
          (init_source empty_fs))
     = Inr [''-L/home/u/lib'', ''-DX=/home/u'', ''-O~'', ''/home/u/inc'']"
    unfolding sample_cleaned by blast
  from t sample_split have i: "fst (clean_flags plain_host (Text ''-L$HOME/lib -DX=~ -O~ -darwin=10.2 ~/inc'')
          (init_source empty_fs))
     = Inr [''-L/home/u/lib'', ''-DX=/home/u'', ''-O~'', ''/home/u/inc'']"
    unfolding sample_cleaned by blast
  from a b c d e f g i show ?thesis by blast
qed

text \<open>
  C8 as stated fails: neither \<^verbatim>\<open>-L$HOME/lib\<close> nor \<^verbatim>\<open>~/inc\<close> matches the grammar, and
  the variable of the first and the \<^verbatim>\<open>~\<close> of the second are both expanded.
\<close>

theorem clean_flags_grammar_counterexample:
  "\<not> rx_match idf_flag_pattern ''-L$HOME/lib'' \<and> \<not> rx_match idf_flag_pattern ''-L/home/u/lib''
   \<and> \<not> rx_match idf_flag_pattern ''~/inc''
   \<and> fst (clean_flags plain_host (Tokens [''-L$HOME/lib'', ''~/inc'']) (init_source empty_fs))
        = Inr [''-L/home/u/lib'', ''/home/u/inc'']"
proof -
  have "fst (clean_flags plain_host (Tokens [''-L$HOME/lib'', ''~/inc'']) (init_source empty_fs))
        = Inr [''-L/home/u/lib'', ''/home/u/inc'']"
    by code_simp
  with sample_match show ?thesis by blast
qed

section \<open>The build database\<close>

text \<open>
  C6 fails on the code. In a database of two records, the entry of the second file holds
  the flags of the first record before its own, because the list \<open>flags\<close> is created
  before the loop over the records and never emptied. The flags extracted from the
  second command alone are the four tokens of the last equation.
\<close>

theorem db_flags_accumulate:
  "fst (find_db_flags db_host ''/proj'' ''src/a.c'' (init_source db_fs))
     = Inr (Some [''-I'', ''/proj/inc_a'', ''-D'', ''A=1''])
   \<and> fst (find_db_flags db_host ''/proj'' ''src/b.c'' (init_source db_fs))
     = Inr (Some [''-I'', ''/proj/inc_a'', ''-D'', ''A=1'', ''-I'', ''/proj/inc_b'', ''-D'', ''B=1''])
   \<and> from_pairs (foldl (add_db_item ''/proj/build'') []
                    (flag_items idf_flag_pattern ''cc -I../inc_b -DB=1 -c ../src/b.c''))
     = [''-I'', ''/proj/inc_b'', ''-D'', ''B=1'']"
  by code_simp

section \<open>Properties of gather_candidates\<close>

lemma clean_flags_spawned: "spawned (snd (clean_flags h a st)) = spawned st"
  by (simp add: clean_flags_def clean_tokens_def split_beta split: flags_arg.splits option.splits)

lemma parse_clang_flags_file_spawned: "spawned (snd (parse_clang_flags_file h file st)) = spawned st"
  by (simp add: parse_clang_flags_file_def clean_flags_spawned split: option.splits)

lemma get_user_flags_spawned: "spawned (snd (get_user_flags h cwd vf st)) = spawned st"
  by (simp add: get_user_flags_def Let_def clean_flags_spawned parse_clang_flags_file_spawned
           split: option.splits prod.splits sum.splits)

lemma unsupported_lang:
  "ft \<notin> set [''c'', ''cpp'', ''objc'', ''objcpp''] \<Longrightarrow> map_of lang_names ft = None"
  by (simp add: lang_names_def)

lemma recompute_unsupported:
  assumes "map_of lang_names (ctx_filetype ctx) = None"
  shows "recompute h clang ctx st
           = (case get_user_flags h (ctx_cwd ctx) (ctx_flags ctx) st of
                (Inl e, st1) \<Rightarrow> (Inl e, st1)
              | (Inr flags, st1) \<Rightarrow> (Inr [], st1))"
  using assms by (simp add: recompute_def Let_def split: prod.splits sum.splits)

lemma reuse_exact_darwin [simp]: "reuse_exact ctx (st\<lparr>darwin_version := d\<rparr>) = reuse_exact ctx st"
  by (simp add: reuse_exact_def same_line_def get_last_line_def get_last_col_def)

lemma reuse_scope_darwin [simp]: "reuse_scope ctx (st\<lparr>darwin_version := d\<rparr>) = reuse_scope ctx st"
  by (simp add: reuse_scope_def same_line_def get_last_line_def get_last_input_def)

lemma get_last_completions_darwin [simp]:
  "get_last_completions (st\<lparr>darwin_version := d\<rparr>) = get_last_completions st"
  by (simp add: get_last_completions_def)

text \<open>
  C10, amended. A request whose filetype is none of \<^verbatim>\<open>c\<close>, \<^verbatim>\<open>cpp\<close>, \<^verbatim>\<open>objc\<close> and
  \<^verbatim>\<open>objcpp\<close> never starts the compiler. It returns the empty list, unless one of the
  two reuse rules applies first, in which case the cached completions are returned, or
  the search for the user flags raises, in which case the error is passed on.
\<close>

theorem unsupported_filetype_never_spawns:
  assumes "ctx_filetype ctx \<notin> set [''c'', ''cpp'', ''objc'', ''objcpp'']"
  shows "spawned (snd (gather_candidates h clang ctx st)) = spawned st
       \<and> fst (gather_candidates h clang ctx st)
           = (if too_short ctx then Inr []
              else if reuse_exact ctx st then Inr (get_last_completions st)
              else if reuse_scope ctx st then Inr (scope_completions st)
              else (case fst (get_user_flags h (ctx_cwd ctx) (ctx_flags ctx) (st\<lparr>darwin_version := None\<rparr>)) of
                      Inl e \<Rightarrow> Inl e
                    | Inr flags \<Rightarrow> Inr []))"
proof -
  have l: "map_of lang_names (ctx_filetype ctx) = None"
    by (rule unsupported_lang[OF assms])
  let ?st0 = "st\<lparr>darwin_version := None\<rparr>"
  have r: "recompute h clang ctx ?st0
           = (case get_user_flags h (ctx_cwd ctx) (ctx_flags ctx) ?st0 of
                (Inl e, st1) \<Rightarrow> (Inl e, st1)
              | (Inr flags, st1) \<Rightarrow> (Inr [], st1))"
    by (rule recompute_unsupported[OF l])
  have s: "spawned (snd (recompute h clang ctx ?st0)) = spawned st"
    using get_user_flags_spawned[of h "ctx_cwd ctx" "ctx_flags ctx" ?st0]
    unfolding r by (auto split: prod.splits sum.splits)
  have f: "fst (recompute h clang ctx ?st0)
      = (case fst (get_user_flags h (ctx_cwd ctx) (ctx_flags ctx) ?st0) of
           Inl e \<Rightarrow> Inl e | Inr flags \<Rightarrow> Inr [])"
    unfolding r by (auto split: prod.splits sum.splits)
  show ?thesis
    using s f by (simp add: gather_candidates_def Let_def)
qed

lemma get_user_flags_spawned_eq:
  "get_user_flags h cwd vf st = (r, st') \<Longrightarrow> spawned st' = spawned st"
  using get_user_flags_spawned[of h cwd vf st] by simp

theorem unsupported_filetype_never_spawns_witness:
  "ctx_filetype req_dox \<notin> set [''c'', ''cpp'', ''objc'', ''objcpp'']
   \<and> spawned (snd (gather_candidates plain_host fake_clang req_dox (init_source proj_fs))) = []
   \<and> fst (gather_candidates plain_host fake_clang req_dox (init_source proj_fs)) = Inr []"
proof -
  have a: "ctx_filetype req_dox \<notin> set [''c'', ''cpp'', ''objc'', ''objcpp'']"
    by (simp add: req_dox_def req_c_def)
  note t = unsupported_filetype_never_spawns[OF a, of plain_host fake_clang "init_source proj_fs"]
  from t have s: "spawned (snd (gather_candidates plain_host fake_clang req_dox (init_source proj_fs))) = []"
    by (simp add: init_source_def)
  have "fst (gather_candidates plain_host fake_clang req_dox (init_source proj_fs)) = Inr []"
    by code_simp
  with a s show ?thesis by blast
qed

text \<open>
  C10 as stated fails: a request in a buffer of filetype \<^verbatim>\<open>c.doxygen\<close>, at the line
  and column of the request before it, is answered from the cache with two completions,
  not with the empty list.
\<close>

theorem unsupported_filetype_counterexample:
  "ctx_filetype req_dox \<notin> set [''c'', ''cpp'', ''objc'', ''objcpp'']
   \<and> fst (gather_candidates plain_host fake_clang req_dox
            (snd (gather_candidates plain_host fake_clang req_c (init_source proj_fs))))
       = Inr [\<lparr>word = ''foo'', abbr = ''foo'', kind = ''int'', info = ''(int)'', icase = 1, dup = 1\<rparr>,
              \<lparr>word = ''bar(<#int x#>)'', abbr = ''bar'', kind = ''void'', info = ''(void)bar(int x)'',
               icase = 1, dup = 1\<rparr>]"
proof -
  have "fst (gather_candidates plain_host fake_clang req_dox
            (snd (gather_candidates plain_host fake_clang req_c (init_source proj_fs))))
       = Inr [\<lparr>word = ''foo'', abbr = ''foo'', kind = ''int'', info = ''(int)'', icase = 1, dup = 1\<rparr>,
              \<lparr>word = ''bar(<#int x#>)'', abbr = ''bar'', kind = ''void'', info = ''(void)bar(int x)'',
               icase = 1, dup = 1\<rparr>]"
    by code_simp
  then show ?thesis by (simp add: req_dox_def req_c_def)
qed

lemma recompute_caches:
  assumes "recompute h clang ctx st0 = (Inr comps, st1)"
      and "length (spawned st0) < length (spawned st1)"
  shows "last_ctx st1 = Some \<lparr>last_input = ctx_input ctx, last_line = ctx_line ctx,
                              last_col = ctx_complete_position ctx, last_completions = comps\<rparr>"
  using assms unfolding recompute_def
  by (auto simp: Let_def split: prod.splits sum.splits option.splits
           dest: get_user_flags_spawned_eq)

lemma gather_caches:
  assumes "gather_candidates h clang ctx st = (Inr comps, st1)"
      and "length (spawned st) < length (spawned st1)"
  shows "last_ctx st1 = Some \<lparr>last_input = ctx_input ctx, last_line = ctx_line ctx,
                              last_col = ctx_complete_position ctx, last_completions = comps\<rparr>"
proof -
  let ?st0 = "st\<lparr>darwin_version := None\<rparr>"
  from assms have "recompute h clang ctx ?st0 = (Inr comps, st1)"
    by (auto simp: gather_candidates_def Let_def split: if_splits)
  moreover have "length (spawned ?st0) < length (spawned st1)"
    using assms(2) by simp
  ultimately show ?thesis by (rule recompute_caches)
qed

text \<open>
  C7, amended. When a request was computed by the compiler, or was itself answered by
  the rule of the same line and column, and has returned \<open>comps\<close>, the next request on
  the same line and with the same completion column never starts
  the compiler; it returns \<open>comps\<close> when it passes the test of the minimum length (the
  typed prefix is as long as configured, or the input ends with the trigger pattern),
  and the empty list when it does not.
\<close>

theorem same_position_reuses_cache:
  assumes "gather_candidates h clang c1 st = (Inr comps, st1)"
      and "length (spawned st) < length (spawned st1) \<or> (\<not> too_short c1 \<and> reuse_exact c1 st)"
      and "ctx_line c2 = ctx_line c1"
      and "ctx_complete_position c2 = ctx_complete_position c1"
  shows "(\<not> too_short c2 \<longrightarrow> fst (gather_candidates h' clang' c2 st1) = Inr comps)
       \<and> (too_short c2 \<longrightarrow> fst (gather_candidates h' clang' c2 st1) = Inr [])
       \<and> spawned (snd (gather_candidates h' clang' c2 st1)) = spawned st1"
proof -
  have eg: "reuse_exact c2 st1 \<and> get_last_completions st1 = comps"
    using assms(2)
  proof
    assume "length (spawned st) < length (spawned st1)"
    then have l: "last_ctx st1 = Some \<lparr>last_input = ctx_input c1, last_line = ctx_line c1,
                              last_col = ctx_complete_position c1, last_completions = comps\<rparr>"
      by (rule gather_caches[OF assms(1)])
    show ?thesis
      using l assms(3,4)
      by (simp add: reuse_exact_def same_line_def get_last_line_def get_last_col_def
                    get_last_completions_def)
  next
    assume r: "\<not> too_short c1 \<and> reuse_exact c1 st"
    with assms(1) have "comps = get_last_completions st" and "st1 = st\<lparr>darwin_version := None\<rparr>"
      by (simp_all add: gather_candidates_def Let_def)
    then show ?thesis
      using r assms(3,4)
      by (simp add: reuse_exact_def same_line_def get_last_line_def get_last_col_def
                    get_last_completions_def)
  qed
  then show ?thesis
    by (simp add: gather_candidates_def Let_def)
qed

lemma first_request:
  "(case gather_candidates plain_host fake_clang req_c (init_source proj_fs) of
      (r, s) \<Rightarrow> (r, length (spawned s)))
   = (Inr [\<lparr>word = ''foo'', abbr = ''foo'', kind = ''int'', info = ''(int)'', icase = 1, dup = 1\<rparr>,
           \<lparr>word = ''bar(<#int x#>)'', abbr = ''bar'', kind = ''void'', info = ''(void)bar(int x)'',
            icase = 1, dup = 1\<rparr>], 2)"
  by code_simp

text \<open>
  C7 as stated fails: the second request is on the line and at the column of the first,
  its prefix \<^verbatim>\<open>f\<close> is shorter than the minimum length 2, and it returns the empty
  list while the first returned two completions.
\<close>

theorem same_position_counterexample:
  "ctx_line req_short = ctx_line req_c
   \<and> ctx_complete_position req_short = ctx_complete_position req_c
   \<and> fst (gather_candidates plain_host fake_clang req_c (init_source proj_fs))
       = Inr [\<lparr>word = ''foo'', abbr = ''foo'', kind = ''int'', info = ''(int)'', icase = 1, dup = 1\<rparr>,
              \<lparr>word = ''bar(<#int x#>)'', abbr = ''bar'', kind = ''void'', info = ''(void)bar(int x)'',
               icase = 1, dup = 1\<rparr>]
   \<and> fst (gather_candidates plain_host fake_clang req_short
            (snd (gather_candidates plain_host fake_clang req_c (init_source proj_fs)))) = Inr []"
proof -
  have "fst (gather_candidates plain_host fake_clang req_short
            (snd (gather_candidates plain_host fake_clang req_c (init_source proj_fs)))) = Inr []"
    by code_simp
  moreover have "fst (gather_candidates plain_host fake_clang req_c (init_source proj_fs))
       = Inr [\<lparr>word = ''foo'', abbr = ''foo'', kind = ''int'', info = ''(int)'', icase = 1, dup = 1\<rparr>,
              \<lparr>word = ''bar(<#int x#>)'', abbr = ''bar'', kind = ''void'', info = ''(void)bar(int x)'',
               icase = 1, dup = 1\<rparr>]"
    using first_request by (simp add: split_beta)
  ultimately show ?thesis by (simp add: req_short_def)
qed

lemma second_request:
  "(case gather_candidates plain_host fake_clang req_more
           (snd (gather_candidates plain_host fake_clang req_c (init_source proj_fs))) of
      (r, s) \<Rightarrow> (r, length (spawned s)))
   = (Inr [\<lparr>word = ''foo'', abbr = ''foo'', kind = ''int'', info = ''(int)'', icase = 1, dup = 1\<rparr>,
           \<lparr>word = ''bar(<#int x#>)'', abbr = ''bar'', kind = ''void'', info = ''(void)bar(int x)'',
            icase = 1, dup = 1\<rparr>], 2)"
  by code_simp

lemma sample_lengths: "\<not> too_short req_more \<and> too_short req_short"
  by code_simp

theorem same_position_reuses_cache_witness:
  "length (spawned (init_source proj_fs))
     < length (spawned (snd (gather_candidates plain_host fake_clang req_c (init_source proj_fs))))
   \<and> ctx_line req_more = ctx_line req_c
   \<and> ctx_complete_position req_more = ctx_complete_position req_c
   \<and> \<not> too_short req_more
   \<and> fst (gather_candidates plain_host fake_clang req_more
            (snd (gather_candidates plain_host fake_clang req_c (init_source proj_fs))))
       = fst (gather_candidates plain_host fake_clang req_c (init_source proj_fs))
   \<and> spawned (snd (gather_candidates plain_host fake_clang req_more
            (snd (gather_candidates plain_host fake_clang req_c (init_source proj_fs)))))
       = spawned (snd (gather_candidates plain_host fake_clang req_c (init_source proj_fs)))"
proof -
  let ?comps = "[\<lparr>word = ''foo'', abbr = ''foo'', kind = ''int'', info = ''(int)'', icase = 1, dup = 1\<rparr>,
           \<lparr>word = ''bar(<#int x#>)'', abbr = ''bar'', kind = ''void'', info = ''(void)bar(int x)'',
            icase = 1, dup = 1\<rparr>]"
  let ?s1 = "snd (gather_candidates plain_host fake_clang req_c (init_source proj_fs))"
  have h1: "gather_candidates plain_host fake_clang req_c (init_source proj_fs) = (Inr ?comps, ?s1)"
    using first_request by (simp add: split_beta prod_eq_iff)
  have h2: "length (spawned (init_source proj_fs)) < length (spawned ?s1)"
    using first_request by (simp add: split_beta init_source_def)
  then have h2': "length (spawned (init_source proj_fs)) < length (spawned ?s1)
      \<or> (\<not> too_short req_c \<and> reuse_exact req_c (init_source proj_fs))"
    by blast
  have h3: "ctx_line req_more = ctx_line req_c"
    by (simp add: req_more_def)
  have h4: "ctx_complete_position req_more = ctx_complete_position req_c"
    by (simp add: req_more_def)
  note t = same_position_reuses_cache[OF h1 h2' h3 h4, of plain_host fake_clang]
  from t sample_lengths have "fst (gather_candidates plain_host fake_clang req_more ?s1) = Inr ?comps"
    by blast
  moreover from t have "spawned (snd (gather_candidates plain_host fake_clang req_more ?s1)) = spawned ?s1"
    by blast
  moreover have "fst (gather_candidates plain_host fake_clang req_c (init_source proj_fs)) = Inr ?comps"
    using first_request by (simp add: split_beta)
  ultimately show ?thesis using h2 h3 h4 sample_lengths by simp
qed

section \<open>Properties of the merged flag list\<close>

lemma merge_flags_concat:
  "merge_flags default_flags flags db_flags
     = (case db_flags of None \<Rightarrow> [] | Some db \<Rightarrow> db) @ default_flags @ flags"
  by (simp add: merge_flags_def Let_def split: option.splits)

lemma call_clang_first:
  assumes "clang (fsys st) (''clang'' # filter (\<lambda>arg. arg \<notin> set (bad_flags st)) cmd)
             (str_join [newline] src) = Some (out, err, w)"
  shows "\<exists>more. spawned (snd (call_clang clang src cmd r st))
           = spawned st @ (''clang'' # filter (\<lambda>arg. arg \<notin> set (bad_flags st)) cmd) # more"
proof -
  let ?cmd0 = "''clang'' # filter (\<lambda>arg. arg \<notin> set (bad_flags st)) cmd"
  have "\<exists>more. spawned (fst (retry_loop clang (Suc 4) src ?cmd0 st [] [])) = spawned st @ ?cmd0 # more"
    using assms
    by (intro retry_loop_first[where out = out and err = err and fs' = w]) simp_all
  moreover have "Suc 4 = (5::nat)" by simp
  ultimately show ?thesis
    unfolding call_clang_state by (simp del: retry_loop.simps)
qed

lemma recompute_spawned:
  assumes "get_user_flags h (ctx_cwd ctx) (ctx_flags ctx) st = (Inr user, st1)"
      and "map_of lang_names (ctx_filetype ctx) = Some lang"
      and "get_clang_flags h clang lang st1 = (Inr dflt, st2)"
      and "find_db_flags h (ctx_cwd ctx) (ctx_bufname ctx) st2 = (Inr db, st3)"
      and "generate_pch h clang (ctx_cwd ctx)
             (if \<not> list_ex (\<lambda>x. startswith x ''-std='')
                     ((case db of None \<Rightarrow> [] | Some d \<Rightarrow> d) @ dflt
                      @ (case darwin_version st1 of None \<Rightarrow> user
                         | Some version \<Rightarrow> apply_darwin_flags h (fsys st1) version user))
              then [''-x'', lang] @ [std_arg ctx] else [''-x'', lang])
             ((case db of None \<Rightarrow> [] | Some d \<Rightarrow> d) @ dflt
              @ (case darwin_version st1 of None \<Rightarrow> user
                 | Some version \<Rightarrow> apply_darwin_flags h (fsys st1) version user)) st3
           = (Inr (cmd2, flags3), st4)"
  shows "spawned (snd (recompute h clang ctx st))
       = spawned (snd (call_clang clang (ctx_buffer ctx)
                         ([''-cc1'', ''-fsyntax-only''] @ cmd2 @ code_flags ctx @ flags3
                          @ [''-O0'', ''-w''] @ [''-'']) False st4))"
proof -
  obtain res st5 where cc: "call_clang clang (ctx_buffer ctx)
                         ([''-cc1'', ''-fsyntax-only''] @ cmd2 @ code_flags ctx @ flags3
                          @ [''-O0'', ''-w''] @ [''-'']) False st4 = (res, st5)"
    by (cases "call_clang clang (ctx_buffer ctx)
                         ([''-cc1'', ''-fsyntax-only''] @ cmd2 @ code_flags ctx @ flags3
                          @ [''-O0'', ''-w''] @ [''-'']) False st4") auto
  have r: "recompute h clang ctx st
      = (case (res, st5) of
           (Inl e, st5) \<Rightarrow> (Inl e, st5)
         | (Inr lines, st5) \<Rightarrow>
             (Inr (completion_loop lines [] []),
              st5\<lparr>last_ctx := Some \<lparr>last_input = ctx_input ctx, last_line = ctx_line ctx,
                                     last_col = ctx_complete_position ctx,
                                     last_completions = completion_loop lines [] []\<rparr>,
                   scope_completions := (if scope_pos ctx then completion_loop lines [] []
                                         else scope_completions st5)\<rparr>))"
    unfolding recompute_def
    by (simp only: Let_def assms(1,2,3,4) prod.case sum.case option.case merge_flags_concat
                   assms(5)[unfolded std_arg_def] cc[unfolded code_flags_def])
  show ?thesis
    unfolding r cc by (cases res) simp_all
qed

lemma generate_pch_flags:
  "generate_pch h clang cwd cmd flags st = (Inr (c, f), s) \<Longrightarrow> f = flags"
  by (auto simp: generate_pch_def Let_def split: if_splits prod.splits sum.splits)

lemma count_list_filter_in: "P x \<Longrightarrow> count_list (filter P xs) x = count_list xs x"
  by (induction xs) auto

text \<open>
  C4, amended. Take a request that is computed by the compiler: its user flags are
  \<open>user1\<close> (the flags of \<open>get_user_flags\<close>, after the additions for Darwin), the
  default flags of its language are \<open>dflt\<close> and the flags of the build database are
  \<open>db\<close>. The process of the completion run is started with the build-database flags,
  the default flags and the user flags one after the other, in this order, between
  the completion arguments and \<^verbatim>\<open>-O0 -w -\<close>, less what \<open>bad_flags\<close> holds. Nothing is
  dropped because it occurs a second time: a token that is not in \<open>bad_flags\<close> occurs
  in the command at least as often as in the three sources together.
\<close>

theorem merged_flags_keep_every_occurrence:
  assumes "\<not> too_short ctx" and "\<not> reuse_exact ctx st" and "\<not> reuse_scope ctx st"
      and "get_user_flags h (ctx_cwd ctx) (ctx_flags ctx) (st\<lparr>darwin_version := None\<rparr>) = (Inr user, st1)"
      and "user1 = (case darwin_version st1 of None \<Rightarrow> user
                    | Some version \<Rightarrow> apply_darwin_flags h (fsys st1) version user)"
      and "map_of lang_names (ctx_filetype ctx) = Some lang"
      and "get_clang_flags h clang lang st1 = (Inr dflt, st2)"
      and "find_db_flags h (ctx_cwd ctx) (ctx_bufname ctx) st2 = (Inr db, st3)"
      and "merged = (case db of None \<Rightarrow> [] | Some d \<Rightarrow> d) @ dflt @ user1"
      and "generate_pch h clang (ctx_cwd ctx)
             (if \<not> list_ex (\<lambda>x. startswith x ''-std='') merged
              then [''-x'', lang] @ [std_arg ctx] else [''-x'', lang])
             merged st3 = (Inr (cmd2, flags3), st4)"
      and "argv = ''clang'' # filter (\<lambda>x. x \<notin> set (bad_flags st4))
                     ([''-cc1'', ''-fsyntax-only''] @ cmd2 @ code_flags ctx @ merged @ [''-O0'', ''-w'', ''-''])"
      and "clang (fsys st4) argv (str_join [newline] (ctx_buffer ctx)) = Some (out, err, w)"
  shows "spawned (snd (gather_candidates h clang ctx st)) ! length (spawned st4) = argv
       \<and> (\<forall>x. x \<notin> set (bad_flags st4) \<longrightarrow>
            (case db of None \<Rightarrow> 0 | Some d \<Rightarrow> count_list d x) + count_list dflt x + count_list user1 x
              \<le> count_list argv x)"
proof
  have f3: "flags3 = merged"
    by (rule generate_pch_flags[OF assms(10)])
  have g: "gather_candidates h clang ctx st = recompute h clang ctx (st\<lparr>darwin_version := None\<rparr>)"
    using assms(1,2,3) by (simp add: gather_candidates_def Let_def)
  have "spawned (snd (recompute h clang ctx (st\<lparr>darwin_version := None\<rparr>)))
       = spawned (snd (call_clang clang (ctx_buffer ctx)
                         ([''-cc1'', ''-fsyntax-only''] @ cmd2 @ code_flags ctx @ flags3
                          @ [''-O0'', ''-w''] @ [''-'']) False st4))"
    by (rule recompute_spawned[OF assms(4,6,7,8) assms(10)[unfolded assms(9) assms(5)]])
  moreover have "\<exists>more. spawned (snd (call_clang clang (ctx_buffer ctx)
                         ([''-cc1'', ''-fsyntax-only''] @ cmd2 @ code_flags ctx @ flags3
                          @ [''-O0'', ''-w''] @ [''-'']) False st4)) = spawned st4 @ argv # more"
    using call_clang_first[where clang = clang and st = st4 and src = "ctx_buffer ctx"
            and cmd = "[''-cc1'', ''-fsyntax-only''] @ cmd2 @ code_flags ctx @ flags3 @ [''-O0'', ''-w''] @ [''-'']"
            and out = out and err = err and w = w and r = False]
          assms(12) unfolding assms(11) f3 by simp
  ultimately obtain more where "spawned (snd (gather_candidates h clang ctx st)) = spawned st4 @ argv # more"
    unfolding g by auto
  then show "spawned (snd (gather_candidates h clang ctx st)) ! length (spawned st4) = argv"
    by simp
  show "\<forall>x. x \<notin> set (bad_flags st4) \<longrightarrow>
            (case db of None \<Rightarrow> 0 | Some d \<Rightarrow> count_list d x) + count_list dflt x + count_list user1 x
              \<le> count_list argv x"
  proof (intro allI impI)
    fix x assume x: "x \<notin> set (bad_flags st4)"
    have "count_list (filter (\<lambda>x. x \<notin> set (bad_flags st4))
                     ([''-cc1'', ''-fsyntax-only''] @ cmd2 @ code_flags ctx @ merged @ [''-O0'', ''-w'', ''-''])) x
        = count_list ([''-cc1'', ''-fsyntax-only''] @ cmd2 @ code_flags ctx @ merged @ [''-O0'', ''-w'', ''-'']) x"
      using x by (rule count_list_filter_in)
    moreover have "count_list merged x
        = (case db of None \<Rightarrow> 0 | Some d \<Rightarrow> count_list d x) + count_list dflt x + count_list user1 x"
      unfolding assms(9) by (cases db) simp_all
    ultimately show "(case db of None \<Rightarrow> 0 | Some d \<Rightarrow> count_list d x) + count_list dflt x + count_list user1 x
              \<le> count_list argv x"
      unfolding assms(11) by simp
  qed
qed

lemma merged_stages:
  "fst (get_user_flags plain_host (ctx_cwd req_c) (ctx_flags req_c)
          ((init_source proj_fs)\<lparr>darwin_version := None\<rparr>))
     = Inr [''-internal-isystem'', ''/usr/include'']"
  "darwin_version (snd (get_user_flags plain_host (ctx_cwd req_c) (ctx_flags req_c)
          ((init_source proj_fs)\<lparr>darwin_version := None\<rparr>))) = None"
  "fst (get_clang_flags plain_host fake_clang ''c''
          (snd (get_user_flags plain_host (ctx_cwd req_c) (ctx_flags req_c)
                  ((init_source proj_fs)\<lparr>darwin_version := None\<rparr>))))
     = Inr [''-internal-isystem'', ''/usr/include'', ''-internal-externc-isystem'', ''/include'']"
  "fst (find_db_flags plain_host (ctx_cwd req_c) (ctx_bufname req_c)
          (snd (get_clang_flags plain_host fake_clang ''c''
             (snd (get_user_flags plain_host (ctx_cwd req_c) (ctx_flags req_c)
                     ((init_source proj_fs)\<lparr>darwin_version := None\<rparr>))))))
     = Inr None"
  by code_simp+

lemma merged_pch_stage:
  "(case generate_pch plain_host fake_clang (ctx_cwd req_c)
           (if \<not> list_ex (\<lambda>x. startswith x ''-std='')
                   [''-internal-isystem'', ''/usr/include'', ''-internal-externc-isystem'', ''/include'',
                    ''-internal-isystem'', ''/usr/include'']
            then [''-x'', ''c''] @ [std_arg req_c] else [''-x'', ''c''])
           [''-internal-isystem'', ''/usr/include'', ''-internal-externc-isystem'', ''/include'',
            ''-internal-isystem'', ''/usr/include'']
           (snd (find_db_flags plain_host (ctx_cwd req_c) (ctx_bufname req_c)
              (snd (get_clang_flags plain_host fake_clang ''c''
                 (snd (get_user_flags plain_host (ctx_cwd req_c) (ctx_flags req_c)
                         ((init_source proj_fs)\<lparr>darwin_version := None\<rparr>))))))) of
      (r, s) \<Rightarrow> (r, length (spawned s), bad_flags s))
   = (Inr ([''-x'', ''c'', ''-std=c11''],
           [''-internal-isystem'', ''/usr/include'', ''-internal-externc-isystem'', ''/include'',
            ''-internal-isystem'', ''/usr/include'']), 1, [])"
  by code_simp

lemma merged_conditions: "\<not> too_short req_c \<and> \<not> reuse_exact req_c (init_source proj_fs)
    \<and> \<not> reuse_scope req_c (init_source proj_fs) \<and> map_of lang_names (ctx_filetype req_c) = Some ''c''
    \<and> code_flags req_c = [''-code-completion-macros'', ''-code-completion-patterns'', ''-code-completion-at=-:1:1'']"
  by code_simp

theorem merged_flags_keep_every_occurrence_witness:
  "\<not> too_short req_c \<and> \<not> reuse_exact req_c (init_source proj_fs)
   \<and> \<not> reuse_scope req_c (init_source proj_fs)
   \<and> fst (get_user_flags plain_host (ctx_cwd req_c) (ctx_flags req_c)
            ((init_source proj_fs)\<lparr>darwin_version := None\<rparr>))
       = Inr [''-internal-isystem'', ''/usr/include'']
   \<and> spawned (snd (gather_candidates plain_host fake_clang req_c (init_source proj_fs))) ! 1
       = [''clang'', ''-cc1'', ''-fsyntax-only'', ''-x'', ''c'', ''-std=c11'',
          ''-code-completion-macros'', ''-code-completion-patterns'',
          ''-code-completion-at=-:1:1'', ''-internal-isystem'', ''/usr/include'',
          ''-internal-externc-isystem'', ''/include'', ''-internal-isystem'',
          ''/usr/include'', ''-O0'', ''-w'', ''-'']
   \<and> 2 \<le> count_list [''clang'', ''-cc1'', ''-fsyntax-only'', ''-x'', ''c'', ''-std=c11'',
          ''-code-completion-macros'', ''-code-completion-patterns'',
          ''-code-completion-at=-:1:1'', ''-internal-isystem'', ''/usr/include'',
          ''-internal-externc-isystem'', ''/include'', ''-internal-isystem'',
          ''/usr/include'', ''-O0'', ''-w'', ''-''] ''/usr/include''"
proof -
  let ?st0 = "(init_source proj_fs)\<lparr>darwin_version := None\<rparr>"
  let ?st1 = "snd (get_user_flags plain_host (ctx_cwd req_c) (ctx_flags req_c) ?st0)"
  let ?st2 = "snd (get_clang_flags plain_host fake_clang ''c'' ?st1)"
  let ?st3 = "snd (find_db_flags plain_host (ctx_cwd req_c) (ctx_bufname req_c) ?st2)"
  let ?user = "[''-internal-isystem'', ''/usr/include'']"
  let ?dflt = "[''-internal-isystem'', ''/usr/include'', ''-internal-externc-isystem'', ''/include'']"
  let ?merged = "[''-internal-isystem'', ''/usr/include'', ''-internal-externc-isystem'', ''/include'',
                  ''-internal-isystem'', ''/usr/include'']"
  let ?cmd1 = "if \<not> list_ex (\<lambda>x. startswith x ''-std='') ?merged
               then [''-x'', ''c''] @ [std_arg req_c] else [''-x'', ''c'']"
  let ?st4 = "snd (generate_pch plain_host fake_clang (ctx_cwd req_c) ?cmd1 ?merged ?st3)"
  let ?argv = "[''clang'', ''-cc1'', ''-fsyntax-only'', ''-x'', ''c'', ''-std=c11'',
          ''-code-completion-macros'', ''-code-completion-patterns'',
          ''-code-completion-at=-:1:1'', ''-internal-isystem'', ''/usr/include'',
          ''-internal-externc-isystem'', ''/include'', ''-internal-isystem'',
          ''/usr/include'', ''-O0'', ''-w'', ''-'']"
  have g1: "\<not> too_short req_c" and g2: "\<not> reuse_exact req_c (init_source proj_fs)"
    and g3: "\<not> reuse_scope req_c (init_source proj_fs)"
    and l: "map_of lang_names (ctx_filetype req_c) = Some ''c''"
    and cf: "code_flags req_c = [''-code-completion-macros'', ''-code-completion-patterns'', ''-code-completion-at=-:1:1'']"
    using merged_conditions by blast+
  have u: "get_user_flags plain_host (ctx_cwd req_c) (ctx_flags req_c) ?st0 = (Inr ?user, ?st1)"
    using merged_stages(1) by (simp add: prod_eq_iff)
  have u1: "?user = (case darwin_version ?st1 of None \<Rightarrow> ?user
                     | Some version \<Rightarrow> apply_darwin_flags plain_host (fsys ?st1) version ?user)"
    unfolding merged_stages(2) by simp
  have d: "get_clang_flags plain_host fake_clang ''c'' ?st1 = (Inr ?dflt, ?st2)"
    using merged_stages(3) by (simp add: prod_eq_iff)
  have b: "find_db_flags plain_host (ctx_cwd req_c) (ctx_bufname req_c) ?st2 = (Inr None, ?st3)"
    using merged_stages(4) by (simp add: prod_eq_iff)
  have m: "?merged = (case None of None \<Rightarrow> [] | Some d \<Rightarrow> d) @ ?dflt @ ?user"
    by simp
  have p: "generate_pch plain_host fake_clang (ctx_cwd req_c) ?cmd1 ?merged ?st3
      = (Inr ([''-x'', ''c'', ''-std=c11''], ?merged), ?st4)"
    using merged_pch_stage by (simp add: split_beta prod_eq_iff)
  have n4: "length (spawned ?st4) = 1" and b4: "bad_flags ?st4 = []"
    using merged_pch_stage by (simp_all add: split_beta)
  have a: "?argv = ''clang'' # filter (\<lambda>x. x \<notin> set (bad_flags ?st4))
                     ([''-cc1'', ''-fsyntax-only''] @ [''-x'', ''c'', ''-std=c11''] @ code_flags req_c
                      @ ?merged @ [''-O0'', ''-w'', ''-''])"
    unfolding b4 cf by simp
  have s: "fake_clang (fsys ?st4) ?argv (str_join [newline] (ctx_buffer req_c))
      = Some (''COMPLETION: foo : [#int#]foo'' @ [newline] @ ''COMPLETION: bar : [#void#]bar(<#int x#>)'',
              [], fsys ?st4)"
    by (simp add: fake_clang_def)
  note t = merged_flags_keep_every_occurrence[OF g1 g2 g3 u u1 l d b m p a s]
  from t have "spawned (snd (gather_candidates plain_host fake_clang req_c (init_source proj_fs))) ! 1 = ?argv"
    unfolding n4 by blast
  moreover have "2 \<le> count_list ?argv ''/usr/include''"
    by simp
  ultimately show ?thesis using g1 g2 g3 merged_stages(1) by blast
qed

text \<open>
  C4 as it is worded fails: the pair \<^verbatim>\<open>-internal-isystem /usr/include\<close> is among the
  default flags of the compiler and among the user flags of this request, and the
  command of the completion run has it twice, once from each source.
\<close>

theorem merged_flags_counterexample:
  "fst (get_clang_flags plain_host fake_clang ''c'' (init_source proj_fs))
     = Inr [''-internal-isystem'', ''/usr/include'', ''-internal-externc-isystem'', ''/include'']
   \<and> fst (get_user_flags plain_host (ctx_cwd req_c) (ctx_flags req_c) (init_source proj_fs))
     = Inr [''-internal-isystem'', ''/usr/include'']
   \<and> fst (find_db_flags plain_host (ctx_cwd req_c) (ctx_bufname req_c) (init_source proj_fs)) = Inr None
   \<and> last (spawned (snd (gather_candidates plain_host fake_clang req_c (init_source proj_fs))))
     = [''clang'', ''-cc1'', ''-fsyntax-only'', ''-x'', ''c'', ''-std=c11'',
        ''-code-completion-macros'', ''-code-completion-patterns'',
        ''-code-completion-at=-:1:1'', ''-internal-isystem'', ''/usr/include'',
        ''-internal-externc-isystem'', ''/include'', ''-internal-isystem'',
        ''/usr/include'', ''-O0'', ''-w'', ''-'']"
  by code_simp

section \<open>Properties of generate_pch\<close>












end
